theory Spec2Isabelle
  imports Complex_Main
begin

section \<open>Values of the host language\<close>

text \<open>
  The bridge is one JavaScript module (\<^verbatim>\<open>src/index.js\<close>) with process-wide variables and
  event handlers. Strings are modelled as \<^typ>\<open>string\<close> over ASCII. A number that arrives
  in one of the transport's JSON messages is a finite double and is modelled as the real
  it denotes (\<^typ>\<open>real\<close>); \<^verbatim>\<open>null\<close> and an absent property are \<open>None\<close>. The position
  estimate adds, divides and multiplies such numbers, and its arithmetic is modelled in
  double precision (in the section on double-precision arithmetic); the single products and
  quotients by 1000000 of the other handlers are taken exactly. The metadata text fields
  are inspected by the source with \<^verbatim>\<open>typeof\<close>, so they keep a dynamic type.
\<close>

datatype jsval =
    JUndefined
  | JNull
  | JBool bool
  | JNum real
  | JStr string
  | JObj "(string \<times> jsval) list"

text \<open>Truthiness, as \<^verbatim>\<open>!value\<close> tests it (an object is always truthy).\<close>

fun truthy :: "jsval \<Rightarrow> bool" where
  "truthy JUndefined = False"
| "truthy JNull = False"
| "truthy (JBool b) = b"
| "truthy (JNum r) = (r \<noteq> 0)"
| "truthy (JStr s) = (s \<noteq> [])"
| "truthy (JObj ps) = True"

fun is_string :: "jsval \<Rightarrow> bool" where
  "is_string (JStr s) = True"
| "is_string v = False"

text \<open>\<^verbatim>\<open>String.prototype.toLowerCase\<close> on ASCII text.\<close>

definition lower_char :: "char \<Rightarrow> char" where
  "lower_char c =
     (if 65 \<le> (of_char c :: nat) \<and> (of_char c :: nat) \<le> 90
      then char_of ((of_char c :: nat) + 32) else c)"

definition toLowerCase :: "string \<Rightarrow> string" where
  "toLowerCase s = map lower_char s"

text \<open>
  What the module takes from outside its own file: the object-path builder of the
  MPRIS player library (\<^verbatim>\<open>player.objectPath\<close>), the rendering of a number as text
  (\<^verbatim>\<open>Number.prototype.toString\<close>), the zone preference read from the environment at
  start (\<^verbatim>\<open>ZONE_PREFERENCE\<close>, already trimmed) and the artwork directory
  (\<^verbatim>\<open>artCacheDir\<close>, below the system's temporary directory).
\<close>

record env =
  objectPath :: "string \<Rightarrow> string"
  numberToString :: "real \<Rightarrow> string"
  ZONE_PREFERENCE :: string
  artCacheDir :: string

definition DEFAULT_TRACK_ID_SUFFIX :: string where
  "DEFAULT_TRACK_ID_SUFFIX = ''track/0''"

definition zonePreferenceLower :: "env \<Rightarrow> string" where
  "zonePreferenceLower E = toLowerCase (ZONE_PREFERENCE E)"

text \<open>The placeholder for album and artist is an em dash (U+2014), here its UTF-8 bytes.\<close>

definition em_dash :: string where
  "em_dash = [CHR 0xE2, CHR 0x80, CHR 0x94]"

text \<open>The middle dot (U+00B7) of the status line.\<close>

definition middle_dot :: string where
  "middle_dot = [CHR 0xC2, CHR 0xB7]"

section \<open>Objects used as dictionaries\<close>

text \<open>
  \<^verbatim>\<open>zones\<close> is a plain object keyed by zone id. It is kept as an association list in
  the order in which \<^verbatim>\<open>Object.values\<close> enumerates it: keys that are array indices
  (canonical decimal numerals below \<open>2^32 - 1\<close>) first, ascending, then all other keys in
  the order of their creation. Assigning to an existing key keeps its place. Zone ids are
  taken to be ordinary keys (not names that \<^verbatim>\<open>Object.prototype\<close> defines).
\<close>

definition is_digit :: "char \<Rightarrow> bool" where
  "is_digit c = (48 \<le> (of_char c :: nat) \<and> (of_char c :: nat) \<le> 57)"

definition index_value :: "string \<Rightarrow> nat" where
  "index_value k = foldl (\<lambda>n c. 10 * n + ((of_char c :: nat) - 48)) 0 k"

definition isArrayIndex :: "string \<Rightarrow> bool" where
  "isArrayIndex k =
     (k \<noteq> [] \<and> list_all is_digit k \<and> (if hd k = CHR ''0'' then k = ''0'' else True)
      \<and> index_value k < 4294967295)"

fun insert_index :: "string \<Rightarrow> 'v \<Rightarrow> (string \<times> 'v) list \<Rightarrow> (string \<times> 'v) list" where
  "insert_index k v [] = [(k, v)]"
| "insert_index k v ((k', v') # ps) =
     (if isArrayIndex k' \<and> index_value k' < index_value k
      then (k', v') # insert_index k v ps
      else (k, v) # (k', v') # ps)"

definition obj_get :: "(string \<times> 'v) list \<Rightarrow> string \<Rightarrow> 'v option" where
  "obj_get ps k = map_of ps k"

definition obj_set :: "(string \<times> 'v) list \<Rightarrow> string \<Rightarrow> 'v \<Rightarrow> (string \<times> 'v) list" where
  "obj_set ps k v =
     (if k \<in> fst ` set ps
      then map (\<lambda>(k', v'). if k' = k then (k', v) else (k', v')) ps
      else if isArrayIndex k then insert_index k v ps
      else ps @ [(k, v)])"

definition obj_delete :: "(string \<times> 'v) list \<Rightarrow> string \<Rightarrow> (string \<times> 'v) list" where
  "obj_delete ps k = filter (\<lambda>(k', v'). k' \<noteq> k) ps"

definition obj_values :: "(string \<times> 'v) list \<Rightarrow> 'v list" where
  "obj_values ps = map snd ps"

section \<open>The transport's data\<close>

record zone_output =
  output_id :: "string option"
  output_display_name :: "string option"

record now_playing_rec =
  title :: jsval
  artist :: jsval
  artist_line :: jsval
  album :: jsval
  three_line :: jsval
  two_line :: jsval
  one_line :: jsval
  length_np :: "real option"
  seek_position :: "real option"
  image_key :: "string option"

record settings_rec =
  settings_shuffle :: bool
  settings_loop :: "string option"

record zone =
  zone_id :: string
  display_name :: "string option"
  state :: "string option"
  now_playing :: "now_playing_rec option"
  is_play_allowed :: bool
  is_pause_allowed :: bool
  is_seek_allowed :: bool
  is_next_allowed :: bool
  is_previous_allowed :: bool
  settings :: "settings_rec option"
  outputs :: "zone_output option list option"
  queue_time_remaining :: "real option"

record seek_update =
  su_zone_id :: string
  su_seek_position :: "real option"
  su_queue_time_remaining :: "real option"

record change_set =
  zones_removed :: "string list option"
  zones_added :: "zone list option"
  zones_changed :: "zone list option"
  zones_seek_changed :: "seek_update list option"

record core =
  core_id :: string
  core_display_name :: string
  core_display_version :: string

text \<open>The empty object \<^verbatim>\<open>{}\<close> that stands in for a missing \<^verbatim>\<open>now_playing\<close>.\<close>

definition empty_now_playing :: now_playing_rec where
  "empty_now_playing =
     \<lparr> title = JUndefined, artist = JUndefined, artist_line = JUndefined,
       album = JUndefined, three_line = JUndefined, two_line = JUndefined,
       one_line = JUndefined, length_np = None, seek_position = None,
       image_key = None \<rparr>"

definition np_of :: "zone \<Rightarrow> now_playing_rec" where
  "np_of z = (case now_playing z of None \<Rightarrow> empty_now_playing | Some np \<Rightarrow> np)"

section \<open>Text extraction\<close>

definition first_string_value :: "(string \<times> jsval) list \<Rightarrow> string option" where
  "first_string_value ps =
     (case find is_string (map snd ps) of
        Some (JStr c) \<Rightarrow> (if c \<noteq> [] then Some c else None)
      | _ \<Rightarrow> None)"

definition extractLine :: "env \<Rightarrow> jsval \<Rightarrow> string \<Rightarrow> string option" where
  "extractLine E line key =
     (if \<not> truthy line then None
      else case line of
          JStr s \<Rightarrow> Some s
        | JNum r \<Rightarrow> Some (numberToString E r)
        | JObj ps \<Rightarrow>
            (case obj_get ps key of
               Some (JStr s) \<Rightarrow> (if s \<noteq> [] then Some s else first_string_value ps)
             | _ \<Rightarrow> first_string_value ps)
        | _ \<Rightarrow> None)"

definition extractText :: "env \<Rightarrow> jsval \<Rightarrow> string option" where
  "extractText E v =
     (if \<not> truthy v then None
      else case v of
          JStr s \<Rightarrow> Some s
        | JNum r \<Rightarrow> Some (numberToString E r)
        | JObj ps \<Rightarrow> extractLine E v ''line1''
        | _ \<Rightarrow> None)"

fun pickText :: "env \<Rightarrow> jsval list \<Rightarrow> string option" where
  "pickText E [] = None"
| "pickText E (v # vs) =
     (case extractText E v of
        Some t \<Rightarrow> (if t \<noteq> [] then Some t else pickText E vs)
      | None \<Rightarrow> pickText E vs)"

text \<open>A line already extracted (a string or \<^verbatim>\<open>null\<close>) as it is handed to \<^verbatim>\<open>pickText\<close>.\<close>

definition line_val :: "string option \<Rightarrow> jsval" where
  "line_val l = (case l of None \<Rightarrow> JNull | Some s \<Rightarrow> JStr s)"

definition normaliseNumber :: "real option \<Rightarrow> real option" where
  "normaliseNumber v = (case v of None \<Rightarrow> None | Some num \<Rightarrow> Some num)"

section \<open>The player surface and the module's variables\<close>

text \<open>
  The properties of the MPRIS player that the module writes after start. The properties
  set once at start and never again (rate bounds, \<^verbatim>\<open>canQuit\<close>, \<^verbatim>\<open>canRaise\<close> and the
  like) are left out, and so is the text log.
\<close>

record metadata_rec =
  mpris_trackid :: string
  mpris_length :: "int option"
  xesam_title :: string
  xesam_album :: string
  xesam_artist :: "string list"
  mpris_artUrl :: "string option"

record player_rec =
  metadata :: metadata_rec
  playbackStatus :: string
  canControl :: bool
  canPlay :: bool
  canPause :: bool
  canSeek :: bool
  canGoNext :: bool
  canGoPrevious :: bool
  shuffle :: bool
  loopStatus :: string

text \<open>
  A call made on the transport service: \<^verbatim>\<open>control(zone, verb)\<close> or
  \<^verbatim>\<open>seek(zone, mode, seconds)\<close>. The service addresses a zone by the id of the zone
  object it is given, so the call is recorded with that id. The result callbacks only
  write to the log. The subscription made at pairing is not recorded; it shows as the
  subscription messages that follow.
\<close>

datatype transport_call =
    Control string string
  | Seek string string real

text \<open>
  The module's variables, and with them what the module has done to its collaborators:
  the status line last set, the \<^verbatim>\<open>seeked\<close> signals emitted, the transport calls made,
  the image requests issued (\<^verbatim>\<open>get_image_calls\<close>), the image requests and file
  writes whose callbacks are still to come, the files in the artwork directory, and the
  artwork continuations queued to run when the running handler has returned
  (\<^verbatim>\<open>art_jobs\<close>). \<^verbatim>\<open>lastSeekUpdate\<close> is in milliseconds, as \<^verbatim>\<open>Date.now()\<close> is.

  \<^verbatim>\<open>activeZone\<close> holds the zone as it was when it was activated. In the source the
  variable refers to the zone object itself, which a later seek update may patch in place
  through the registry (seek position and queue time only); the module reads the active
  zone only to test it against \<^verbatim>\<open>null\<close> and to hand it to the transport, which is
  recorded by the zone's id.
\<close>

record bridge =
  activeCore :: "core option"
  transport :: "core option"
  imageSvc :: "core option"
  zones :: "(string \<times> zone) list"
  activeZoneId :: "string option"
  activeZone :: "zone option"
  lastSeekSeconds :: real
  lastSeekUpdate :: int
  activeLengthSeconds :: "real option"
  lastKnownZoneState :: string
  player :: player_rec
  status :: "string \<times> bool"
  seeked :: "int list"
  transport_calls :: "transport_call list"
  keyToFilePath :: "string \<rightharpoonup> string"
  files :: "string set"
  get_image_calls :: "string list"
  pending_images :: "string list"
  pending_writes :: "(string \<times> string) list"
  art_jobs :: "string list"

definition idle_metadata :: "env \<Rightarrow> metadata_rec" where
  "idle_metadata E =
     \<lparr> mpris_trackid = objectPath E DEFAULT_TRACK_ID_SUFFIX,
       mpris_length = None,
       xesam_title = ''Roon'',
       xesam_album = em_dash,
       xesam_artist = [em_dash],
       mpris_artUrl = None \<rparr>"

text \<open>The state after the module's top level has run (\<^verbatim>\<open>now\<close> is the start time).\<close>

definition initial :: "env \<Rightarrow> int \<Rightarrow> bridge" where
  "initial E now =
     \<lparr> activeCore = None, transport = None, imageSvc = None, zones = [],
       activeZoneId = None, activeZone = None,
       lastSeekSeconds = 0, lastSeekUpdate = now, activeLengthSeconds = None,
       lastKnownZoneState = ''stopped'',
       player =
         \<lparr> metadata = idle_metadata E, playbackStatus = ''Stopped'',
           canControl = False, canPlay = False, canPause = False, canSeek = False,
           canGoNext = False, canGoPrevious = False, shuffle = False,
           loopStatus = ''None'' \<rparr>,
       status = (''Waiting for Roon Core authorisation...'', False),
       seeked = [], transport_calls = [],
       keyToFilePath = Map.empty, files = {}, get_image_calls = [],
       pending_images = [], pending_writes = [], art_jobs = [] \<rparr>"

definition setStatus :: "string \<Rightarrow> bool \<Rightarrow> bridge \<Rightarrow> bridge" where
  "setStatus message isError st = st\<lparr>status := (message, isError)\<rparr>"

section \<open>Album art caching\<close>

definition safe_char :: "char \<Rightarrow> bool" where
  "safe_char c =
     (let n = (of_char c :: nat) in
      (97 \<le> n \<and> n \<le> 122) \<or> (65 \<le> n \<and> n \<le> 90) \<or> (48 \<le> n \<and> n \<le> 57)
      \<or> c = CHR ''.'' \<or> c = CHR ''_'' \<or> c = CHR ''-'')"

definition keyToFilename :: "env \<Rightarrow> string \<Rightarrow> string" where
  "keyToFilename E key =
     artCacheDir E @ ''/'' @ map (\<lambda>c. if safe_char c then c else CHR ''_'') key @ ''.jpg''"

text \<open>\<^verbatim>\<open>.replace(/\.(jpg|png)$/i, '')\<close>\<close>

definition strip_image_ext :: "string \<Rightarrow> string" where
  "strip_image_ext s =
     (if 4 \<le> length s
         \<and> (toLowerCase (drop (length s - 4) s) = ''.jpg''
            \<or> toLowerCase (drop (length s - 4) s) = ''.png'')
      then take (length s - 4) s else s)"

definition targetBase :: "env \<Rightarrow> string \<Rightarrow> string" where
  "targetBase E imageKey = strip_image_ext (keyToFilename E imageKey)"

text \<open>\<^verbatim>\<open>/png/i.test(String(contentType))\<close>\<close>

fun mentions_png :: "string \<Rightarrow> bool" where
  "mentions_png [] = False"
| "mentions_png (c # cs) = (toLowerCase (take 3 (c # cs)) = ''png'' \<or> mentions_png cs)"

text \<open>
  The part of \<^verbatim>\<open>resolveArtFile\<close> that runs in the caller's turn, up to the
  \<^verbatim>\<open>await\<close>: nothing when there is no image service or no key; on a hit (the key is
  mapped and its file exists) the continuation with the file's URL is queued; otherwise
  \<^verbatim>\<open>get_image\<close> is called and its callback is awaited.
\<close>

definition resolveArtFile :: "env \<Rightarrow> string \<Rightarrow> bridge \<Rightarrow> bridge" where
  "resolveArtFile E imageKey st =
     (if imageSvc st = None \<or> imageKey = [] then st
      else case keyToFilePath st imageKey of
          Some existing \<Rightarrow>
            (if existing \<noteq> [] \<and> existing \<in> files st
             then st\<lparr>art_jobs := art_jobs st @ [''file://'' @ existing]\<rparr>
             else st\<lparr>get_image_calls := get_image_calls st @ [imageKey],
                     pending_images := pending_images st @ [imageKey]\<rparr>)
        | None \<Rightarrow>
            st\<lparr>get_image_calls := get_image_calls st @ [imageKey],
               pending_images := pending_images st @ [imageKey]\<rparr>)"

text \<open>The continuation that \<^verbatim>\<open>updateMetadata\<close> attaches: re-apply the metadata with the art URL.\<close>

definition applyArtUrl :: "string \<Rightarrow> bridge \<Rightarrow> bridge" where
  "applyArtUrl fileUrl st =
     (if fileUrl = [] then st
      else st\<lparr>player := (player st)\<lparr>metadata := (metadata (player st))\<lparr>mpris_artUrl := Some fileUrl\<rparr>\<rparr>\<rparr>)"

datatype image_result = ImageError | ImageOk string

text \<open>
  The callback of \<^verbatim>\<open>get_image\<close> for a pending request for \<open>imageKey\<close>: an error ends
  the resolve with \<^verbatim>\<open>null\<close>; otherwise the file write is started.
\<close>

definition get_image_callback :: "env \<Rightarrow> string \<Rightarrow> image_result \<Rightarrow> bridge \<Rightarrow> bridge" where
  "get_image_callback E imageKey res st =
     (if imageKey \<notin> set (pending_images st) then st
      else case res of
          ImageError \<Rightarrow> st\<lparr>pending_images := remove1 imageKey (pending_images st)\<rparr>
        | ImageOk contentType \<Rightarrow>
            st\<lparr>pending_images := remove1 imageKey (pending_images st),
               pending_writes := pending_writes st @
                 [(imageKey, targetBase E imageKey @ ''.'' @
                     (if mentions_png contentType then ''png'' else ''jpg''))]\<rparr>)"

text \<open>
  The callback of \<^verbatim>\<open>fs.writeFile\<close> for a pending write: on an error the resolve ends
  with \<^verbatim>\<open>null\<close>; on success the file exists, the path is recorded for the key and the
  metadata continuation runs with its URL.
\<close>

definition writeFile_callback :: "env \<Rightarrow> string \<Rightarrow> string \<Rightarrow> bool \<Rightarrow> bridge \<Rightarrow> bridge" where
  "writeFile_callback E imageKey targetPath werr st =
     (if (imageKey, targetPath) \<notin> set (pending_writes st) then st
      else if werr then st\<lparr>pending_writes := remove1 (imageKey, targetPath) (pending_writes st)\<rparr>
      else
        (let fs = insert targetPath (files st);
             finalPath = targetBase E imageKey @ ''.'' @
               (if targetBase E imageKey @ ''.png'' \<in> fs then ''png'' else ''jpg'')
         in applyArtUrl (''file://'' @ finalPath)
              (st\<lparr>pending_writes := remove1 (imageKey, targetPath) (pending_writes st),
                  files := fs,
                  keyToFilePath := (keyToFilePath st)(imageKey \<mapsto> finalPath)\<rparr>)))"

text \<open>The queued continuations run, in order, when the running handler has returned.\<close>

definition run_art_jobs :: "bridge \<Rightarrow> bridge" where
  "run_art_jobs st = (foldl (\<lambda>s url. applyArtUrl url s) st (art_jobs st))\<lparr>art_jobs := []\<rparr>"

section \<open>Projecting the active zone\<close>

definition mapPlaybackStatus :: "string option \<Rightarrow> string" where
  "mapPlaybackStatus s =
     (let l = toLowerCase (case s of None \<Rightarrow> [] | Some x \<Rightarrow> x) in
      if l = ''playing'' then ''Playing''
      else if l = ''paused'' then ''Paused''
      else if l = ''loading'' then ''Playing''
      else ''Stopped'')"

definition mapLoopStatus :: "string option \<Rightarrow> string" where
  "mapLoopStatus loop =
     (let l = toLowerCase (case loop of None \<Rightarrow> [] | Some x \<Rightarrow> x) in
      if l = ''loop_one'' then ''Track''
      else if l = ''loop'' then ''Playlist''
      else ''None'')"

definition hasSeekInfo :: "zone \<Rightarrow> bool" where
  "hasSeekInfo z =
     (case now_playing z of
        None \<Rightarrow> False
      | Some nowPlaying \<Rightarrow> normaliseNumber (seek_position nowPlaying) \<noteq> None)"

definition updateCapabilities :: "zone \<Rightarrow> bridge \<Rightarrow> bridge" where
  "updateCapabilities z st =
     st\<lparr>player := (player st)
        \<lparr>canControl := True,
         canPlay := (is_play_allowed z \<or> state z = Some ''playing''
                     \<or> state z = Some ''paused'' \<or> state z = Some ''loading''),
         canPause := is_pause_allowed z,
         canSeek := (is_seek_allowed z \<and> hasSeekInfo z),
         canGoNext := is_next_allowed z,
         canGoPrevious := is_previous_allowed z,
         shuffle := (case settings z of None \<Rightarrow> False | Some s \<Rightarrow> settings_shuffle s),
         loopStatus := (case settings z of None \<Rightarrow> ''None''
                        | Some s \<Rightarrow> mapLoopStatus (settings_loop s))\<rparr>\<rparr>"

text \<open>\<^verbatim>\<open>a || b\<close> on an optional string and a literal.\<close>

definition or_else :: "string option \<Rightarrow> string \<Rightarrow> string" where
  "or_else a b = (case a of None \<Rightarrow> b | Some s \<Rightarrow> (if s \<noteq> [] then s else b))"

definition zone_metadata :: "env \<Rightarrow> zone \<Rightarrow> metadata_rec" where
  "zone_metadata E z =
     \<lparr> mpris_trackid = objectPath E (''zone/'' @ zone_id z),
       mpris_length =
         (case normaliseNumber (length_np (np_of z)) of
            None \<Rightarrow> None | Some l \<Rightarrow> Some \<lfloor>l * 1000000\<rfloor>),
       xesam_title =
         (case pickText E
                 [title (np_of z),
                  line_val (extractLine E (three_line (np_of z)) ''line1''),
                  line_val (extractLine E (two_line (np_of z)) ''line2''),
                  line_val (extractLine E (one_line (np_of z)) ''line1'')] of
            Some t \<Rightarrow> t
          | None \<Rightarrow> or_else (display_name z) ''Roon''),
       xesam_album =
         (case pickText E
                 [album (np_of z),
                  line_val (extractLine E (three_line (np_of z)) ''line3'')] of
            Some a \<Rightarrow> a
          | None \<Rightarrow> em_dash),
       xesam_artist =
         [case pickText E
                 [artist (np_of z),
                  artist_line (np_of z),
                  line_val (extractLine E (three_line (np_of z)) ''line2''),
                  line_val (extractLine E (two_line (np_of z)) ''line1'')] of
            Some a \<Rightarrow> a
          | None \<Rightarrow> ''Roon''],
       mpris_artUrl = None \<rparr>"

definition updateMetadata :: "env \<Rightarrow> zone \<Rightarrow> bridge \<Rightarrow> bridge" where
  "updateMetadata E z st =
     (let st1 = (case image_key (np_of z) of
                   None \<Rightarrow> st
                 | Some k \<Rightarrow> (if k \<noteq> [] then resolveArtFile E k st else st))
      in st1\<lparr>player := (player st1)\<lparr>metadata := zone_metadata E z\<rparr>\<rparr>)"

definition updatePlaybackState :: "zone \<Rightarrow> bridge \<Rightarrow> bridge" where
  "updatePlaybackState z st =
     st\<lparr>lastKnownZoneState := or_else (state z) ''stopped'',
        player := (player st)\<lparr>playbackStatus := mapPlaybackStatus (state z)\<rparr>\<rparr>"

definition updateSeekState :: "int \<Rightarrow> zone \<Rightarrow> bridge \<Rightarrow> bridge" where
  "updateSeekState now z st =
     st\<lparr>lastSeekSeconds :=
          (case normaliseNumber (seek_position (np_of z)) of
             Some position \<Rightarrow> position | None \<Rightarrow> 0),
        lastSeekUpdate := now,
        activeLengthSeconds := normaliseNumber (length_np (np_of z))\<rparr>"

definition updateFromActiveZone :: "env \<Rightarrow> int \<Rightarrow> zone \<Rightarrow> bridge \<Rightarrow> bridge" where
  "updateFromActiveZone E now z st =
     (let st1 = updateSeekState now z
                  (updatePlaybackState z (updateMetadata E z (updateCapabilities z st)))
      in case activeCore st1 of
           None \<Rightarrow> st1
         | Some c \<Rightarrow>
             setStatus (''Connected to '' @ core_display_name c @ '' '' @ middle_dot
                        @ '' Zone: ''
                        @ (case display_name z of None \<Rightarrow> ''undefined'' | Some n \<Rightarrow> n))
               False st1)"

definition idle_player :: "env \<Rightarrow> bool \<Rightarrow> player_rec" where
  "idle_player E ctl =
     \<lparr> metadata = idle_metadata E, playbackStatus = ''Stopped'',
       canControl = ctl, canPlay = False, canPause = False, canSeek = False,
       canGoNext = False, canGoPrevious = False, shuffle = False,
       loopStatus = ''None'' \<rparr>"

definition activateZone :: "env \<Rightarrow> int \<Rightarrow> zone option \<Rightarrow> bridge \<Rightarrow> bridge" where
  "activateZone E now zo st =
     (case zo of
        None \<Rightarrow>
          (let st1 = st\<lparr>activeZoneId := None, activeZone := None,
                        lastKnownZoneState := ''stopped'', lastSeekSeconds := 0,
                        activeLengthSeconds := None,
                        player := idle_player E (transport st \<noteq> None)\<rparr>
           in case activeCore st1 of
                None \<Rightarrow> st1
              | Some c \<Rightarrow>
                  setStatus (''Connected to '' @ core_display_name c @ '' (no active zone)'')
                    False st1)
      | Some z \<Rightarrow>
          updateFromActiveZone E now z (st\<lparr>activeZoneId := Some (zone_id z), activeZone := Some z\<rparr>))"

section \<open>Zone selection\<close>

definition lower_equals :: "string option \<Rightarrow> string \<Rightarrow> bool" where
  "lower_equals a p = (case a of None \<Rightarrow> False | Some s \<Rightarrow> s \<noteq> [] \<and> toLowerCase s = p)"

definition matchesZonePreference :: "env \<Rightarrow> zone \<Rightarrow> bool" where
  "matchesZonePreference E z =
     (if ZONE_PREFERENCE E = [] then False
      else if zone_id z \<noteq> [] \<and> toLowerCase (zone_id z) = zonePreferenceLower E then True
      else if lower_equals (display_name z) (zonePreferenceLower E) then True
      else case outputs z of
          Some os \<Rightarrow>
            list_ex (\<lambda>out. case out of
                        None \<Rightarrow> False
                      | Some ou \<Rightarrow>
                          (if lower_equals (output_id ou) (zonePreferenceLower E) then True
                           else if lower_equals (output_display_name ou) (zonePreferenceLower E)
                           then True else False)) os
        | None \<Rightarrow> False)"

definition pickPreferredZone :: "env \<Rightarrow> zone list \<Rightarrow> zone option" where
  "pickPreferredZone E zoneCandidates =
     (case (if ZONE_PREFERENCE E \<noteq> [] then find (matchesZonePreference E) zoneCandidates
            else None) of
        Some matched \<Rightarrow> Some matched
      | None \<Rightarrow> find (\<lambda>z. state z = Some ''playing'') zoneCandidates)"

text \<open>Truthiness of \<^verbatim>\<open>activeZoneId\<close>: neither \<^verbatim>\<open>null\<close> nor the empty string.\<close>

definition id_truthy :: "string option \<Rightarrow> bool" where
  "id_truthy a = (case a of None \<Rightarrow> False | Some s \<Rightarrow> s \<noteq> [])"

definition selectAndActivateZone :: "env \<Rightarrow> int \<Rightarrow> bridge \<Rightarrow> bridge" where
  "selectAndActivateZone E now st =
     (case obj_values (zones st) of
        [] \<Rightarrow> activateZone E now None st
      | first # others \<Rightarrow>
          (case pickPreferredZone E (first # others) of
             Some preferred \<Rightarrow> activateZone E now (Some preferred) st
           | None \<Rightarrow>
               (case (if id_truthy (activeZoneId st)
                      then obj_get (zones st) (the (activeZoneId st)) else None) of
                  Some z \<Rightarrow> activateZone E now (Some z) st
                | None \<Rightarrow> activateZone E now (Some first) st)))"

definition ensureActiveZone :: "env \<Rightarrow> int \<Rightarrow> bridge \<Rightarrow> bridge" where
  "ensureActiveZone E now st =
     (if activeZone st \<noteq> None then st else selectAndActivateZone E now st)"

section \<open>The zone registry and its feed\<close>

definition onZonesSubscribed :: "env \<Rightarrow> int \<Rightarrow> zone list \<Rightarrow> bridge \<Rightarrow> bridge" where
  "onZonesSubscribed E now zoneList st =
     selectAndActivateZone E now
       (st\<lparr>zones := foldl (\<lambda>acc z. obj_set acc (zone_id z) z) [] zoneList\<rparr>)"

text \<open>The bodies of the four \<^verbatim>\<open>forEach\<close> loops of \<^verbatim>\<open>onZonesChanged\<close>.\<close>

definition removeZone :: "env \<Rightarrow> int \<Rightarrow> bridge \<Rightarrow> string \<Rightarrow> bridge" where
  "removeZone E now st zoneId =
     (if activeZoneId st = Some zoneId
      then activateZone E now None (st\<lparr>zones := obj_delete (zones st) zoneId\<rparr>)
      else st\<lparr>zones := obj_delete (zones st) zoneId\<rparr>)"

definition addZone :: "bridge \<Rightarrow> zone \<Rightarrow> bridge" where
  "addZone st z = st\<lparr>zones := obj_set (zones st) (zone_id z) z\<rparr>"

definition changeZone :: "env \<Rightarrow> int \<Rightarrow> bridge \<Rightarrow> zone \<Rightarrow> bridge" where
  "changeZone E now st z =
     (if activeZoneId st = Some (zone_id z)
      then activateZone E now (Some z) (st\<lparr>zones := obj_set (zones st) (zone_id z) z\<rparr>)
      else st\<lparr>zones := obj_set (zones st) (zone_id z) z\<rparr>)"

text \<open>
  A seek update patches the registry's zone in place; for the active id it also recomputes
  the seek anchor and emits \<^verbatim>\<open>seeked\<close>.
\<close>

definition patch_seek :: "seek_update \<Rightarrow> zone \<Rightarrow> zone" where
  "patch_seek su z =
     z\<lparr>now_playing := Some ((np_of z)\<lparr>seek_position := su_seek_position su\<rparr>),
       queue_time_remaining := su_queue_time_remaining su\<rparr>"

definition applySeekUpdate :: "int \<Rightarrow> bridge \<Rightarrow> seek_update \<Rightarrow> bridge" where
  "applySeekUpdate now st su =
     (case obj_get (zones st) (su_zone_id su) of
        None \<Rightarrow> st
      | Some z \<Rightarrow>
          (if activeZoneId st = Some (su_zone_id su)
           then (updateSeekState now (patch_seek su z)
                   (st\<lparr>zones := obj_set (zones st) (su_zone_id su) (patch_seek su z)\<rparr>))
                \<lparr>seeked := seeked st @
                   [\<lfloor>(case su_seek_position su of None \<Rightarrow> 0 | Some p \<Rightarrow> p) * 1000000\<rfloor>]\<rparr>
           else st\<lparr>zones := obj_set (zones st) (su_zone_id su) (patch_seek su z)\<rparr>))"

definition each :: "('s \<Rightarrow> 'a \<Rightarrow> 's) \<Rightarrow> 'a list option \<Rightarrow> 's \<Rightarrow> 's" where
  "each body xs st = (case xs of None \<Rightarrow> st | Some l \<Rightarrow> foldl body st l)"

definition applyChanges :: "env \<Rightarrow> int \<Rightarrow> change_set \<Rightarrow> bridge \<Rightarrow> bridge" where
  "applyChanges E now changeSet st =
     each (applySeekUpdate now) (zones_seek_changed changeSet)
       (each (changeZone E now) (zones_changed changeSet)
          (each addZone (zones_added changeSet)
             (each (removeZone E now) (zones_removed changeSet) st)))"

definition onZonesChanged :: "env \<Rightarrow> int \<Rightarrow> change_set \<Rightarrow> bridge \<Rightarrow> bridge" where
  "onZonesChanged E now changeSet st =
     (if \<not> id_truthy (activeZoneId (applyChanges E now changeSet st))
      then selectAndActivateZone E now (applyChanges E now changeSet st)
      else applyChanges E now changeSet st)"

datatype subscription_msg =
    Subscribed "zone list option"
  | Changed change_set
  | Unsubscribed
  | OtherMessage string

definition onSubscription :: "env \<Rightarrow> int \<Rightarrow> subscription_msg \<Rightarrow> bridge \<Rightarrow> bridge" where
  "onSubscription E now msg st =
     (case msg of
        Subscribed zs \<Rightarrow> onZonesSubscribed E now (case zs of None \<Rightarrow> [] | Some l \<Rightarrow> l) st
      | Changed changeSet \<Rightarrow> onZonesChanged E now changeSet st
      | Unsubscribed \<Rightarrow> activateZone E now None (st\<lparr>zones := []\<rparr>)
      | OtherMessage command \<Rightarrow> st)"

definition onCorePaired :: "core \<Rightarrow> bridge \<Rightarrow> bridge" where
  "onCorePaired c st =
     setStatus (''Connected to '' @ core_display_name c) False
       (st\<lparr>activeCore := Some c, transport := Some c, imageSvc := Some c\<rparr>)"

definition onCoreUnpaired :: "env \<Rightarrow> int \<Rightarrow> core \<Rightarrow> bridge \<Rightarrow> bridge" where
  "onCoreUnpaired E now c st =
     setStatus ''Waiting for Roon Core authorisation...'' False
       (activateZone E now None (st\<lparr>activeCore := None, transport := None, zones := []\<rparr>))"

section \<open>Control actions\<close>

datatype error = TypeError

datatype control = Play | Pause | PlayPause | Stop | Next | Previous

fun control_name :: "control \<Rightarrow> string" where
  "control_name Play = ''play''"
| "control_name Pause = ''pause''"
| "control_name PlayPause = ''playpause''"
| "control_name Stop = ''stop''"
| "control_name Next = ''next''"
| "control_name Previous = ''previous''"

definition sendTransportCommand :: "env \<Rightarrow> int \<Rightarrow> control \<Rightarrow> bridge \<Rightarrow> bridge" where
  "sendTransportCommand E now c st =
     (case activeZone (ensureActiveZone E now st) of
        None \<Rightarrow> ensureActiveZone E now st
      | Some z \<Rightarrow>
          (case transport (ensureActiveZone E now st) of
             None \<Rightarrow> ensureActiveZone E now st
           | Some t \<Rightarrow>
               (ensureActiveZone E now st)
                 \<lparr>transport_calls := transport_calls (ensureActiveZone E now st)
                                       @ [Control (zone_id z) (control_name c)]\<rparr>))"

text \<open>
  The two seek handlers call \<^verbatim>\<open>transport.seek\<close> without testing \<^verbatim>\<open>transport\<close>: on a
  \<^verbatim>\<open>null\<close> transport the call throws a \<^verbatim>\<open>TypeError\<close>. Offsets and positions are
  integer microseconds.
\<close>

definition on_seek :: "env \<Rightarrow> int \<Rightarrow> int \<Rightarrow> bridge \<Rightarrow> error + bridge" where
  "on_seek E now offset st =
     (case activeZone (ensureActiveZone E now st) of
        None \<Rightarrow> Inr (ensureActiveZone E now st)
      | Some z \<Rightarrow>
          (case transport (ensureActiveZone E now st) of
             None \<Rightarrow> Inl TypeError
           | Some t \<Rightarrow>
               Inr ((ensureActiveZone E now st)
                 \<lparr>transport_calls := transport_calls (ensureActiveZone E now st)
                    @ [Seek (zone_id z) ''relative'' (real_of_int offset / 1000000)]\<rparr>)))"

record position_event =
  trackId :: "string option"
  position :: int

definition on_position :: "env \<Rightarrow> int \<Rightarrow> position_event \<Rightarrow> bridge \<Rightarrow> error + bridge" where
  "on_position E now event st =
     (case activeZone (ensureActiveZone E now st) of
        None \<Rightarrow> Inr (ensureActiveZone E now st)
      | Some z \<Rightarrow>
          (if id_truthy (trackId event)
              \<and> trackId event
                  \<noteq> Some (mpris_trackid (metadata (player (ensureActiveZone E now st))))
           then Inr (ensureActiveZone E now st)
           else case transport (ensureActiveZone E now st) of
               None \<Rightarrow> Inl TypeError
             | Some t \<Rightarrow>
                 Inr ((ensureActiveZone E now st)
                   \<lparr>transport_calls := transport_calls (ensureActiveZone E now st)
                      @ [Seek (zone_id z) ''absolute''
                           (real_of_int (position event) / 1000000)]\<rparr>)))"

section \<open>Double-precision arithmetic\<close>

text \<open>
  JavaScript numbers are IEEE 754 binary64 values and every arithmetic operation rounds
  its exact result to the nearest of them, a tie going to the value whose last bit is
  zero. A finite double is modelled as the real it denotes. \<open>round_even\<close> rounds a real
  to the nearest integer, ties to even; \<open>exponent x\<close> is the binary exponent of \<open>x\<close> (not
  below that of the subnormal numbers); \<open>quantum x\<close> is the distance between neighbouring
  doubles at \<open>x\<close>, 52 binary places below the exponent; \<open>rnd x\<close> is the multiple of the
  quantum nearest to \<open>x\<close>.
\<close>

definition round_even :: "real \<Rightarrow> int" where
  "round_even a =
     (if a - of_int \<lfloor>a\<rfloor> < 1 / 2 then \<lfloor>a\<rfloor>
      else if 1 / 2 < a - of_int \<lfloor>a\<rfloor> then \<lfloor>a\<rfloor> + 1
      else if even \<lfloor>a\<rfloor> then \<lfloor>a\<rfloor> else \<lfloor>a\<rfloor> + 1)"

definition exponent :: "real \<Rightarrow> int" where
  "exponent x = max \<lfloor>log 2 \<bar>x\<bar>\<rfloor> (- 1022)"

definition quantum :: "real \<Rightarrow> real" where
  "quantum x = 2 powr (of_int (exponent x) - 52)"

definition rnd :: "real \<Rightarrow> real" where
  "rnd x = sgn x * (of_int (round_even (\<bar>x\<bar> / quantum x)) * quantum x)"

text \<open>
  The result of an operation: a finite double or, when the rounded result reaches
  \<open>2 ^ 1024\<close>, an infinity. (The operations below never produce \<^verbatim>\<open>NaN\<close>: no infinity
  is subtracted from another or multiplied by zero. The sign of zero is not kept.)
\<close>

datatype double = NegInf | Dbl real | PosInf

fun dle :: "double \<Rightarrow> double \<Rightarrow> bool" where
  "dle NegInf y = True"
| "dle (Dbl a) NegInf = False"
| "dle (Dbl a) (Dbl b) = (a \<le> b)"
| "dle (Dbl a) PosInf = True"
| "dle PosInf NegInf = False"
| "dle PosInf (Dbl b) = False"
| "dle PosInf PosInf = True"

instantiation double :: linorder
begin

definition less_eq_double :: "double \<Rightarrow> double \<Rightarrow> bool" where
  "less_eq_double x y = dle x y"

definition less_double :: "double \<Rightarrow> double \<Rightarrow> bool" where
  "less_double x y = (dle x y \<and> \<not> dle y x)"

instance
proof
  fix x y z :: double
  show "(x < y) = (x \<le> y \<and> \<not> y \<le> x)"
    by (simp add: less_double_def less_eq_double_def)
  show "x \<le> x"
    by (cases x) (simp_all add: less_eq_double_def)
  show "x \<le> y \<Longrightarrow> y \<le> z \<Longrightarrow> x \<le> z"
    by (cases x; cases y; cases z) (simp_all add: less_eq_double_def)
  show "x \<le> y \<Longrightarrow> y \<le> x \<Longrightarrow> x = y"
    by (cases x; cases y) (simp_all add: less_eq_double_def)
  show "x \<le> y \<or> y \<le> x"
    by (cases x; cases y) (auto simp: less_eq_double_def)
qed

end

definition fl :: "real \<Rightarrow> double" where
  "fl x = (if 2 ^ 1024 \<le> rnd x then PosInf
           else if rnd x \<le> - (2 ^ 1024) then NegInf
           else Dbl (rnd x))"

text \<open>
  The operations of \<^verbatim>\<open>getPosition\<close>. \<open>dsub\<close> is the difference of two clock readings
  (\<^verbatim>\<open>Date.now()\<close>, whole milliseconds, each a double); \<open>ddiv\<close> and \<open>dmul\<close> divide and
  multiply by a positive constant (1000 and 1000000 in the source); \<open>dadd\<close> adds a
  stored number; \<open>dfloor\<close> is \<^verbatim>\<open>Math.floor\<close>, whose result is exact. \<^verbatim>\<open>Math.min\<close> and
  \<^verbatim>\<open>Math.max\<close> are \<open>min\<close> and \<open>max\<close> of the order on doubles.
\<close>

definition dsub :: "int \<Rightarrow> int \<Rightarrow> double" where
  "dsub a b = fl (of_int (a - b))"

fun ddiv :: "double \<Rightarrow> real \<Rightarrow> double" where
  "ddiv (Dbl a) c = fl (a / c)"
| "ddiv PosInf c = PosInf"
| "ddiv NegInf c = NegInf"

fun dmul :: "double \<Rightarrow> real \<Rightarrow> double" where
  "dmul (Dbl a) c = fl (a * c)"
| "dmul PosInf c = PosInf"
| "dmul NegInf c = NegInf"

fun dadd :: "real \<Rightarrow> double \<Rightarrow> double" where
  "dadd a (Dbl b) = fl (a + b)"
| "dadd a PosInf = PosInf"
| "dadd a NegInf = NegInf"

fun dfloor :: "double \<Rightarrow> double" where
  "dfloor (Dbl a) = Dbl (of_int \<lfloor>a\<rfloor>)"
| "dfloor PosInf = PosInf"
| "dfloor NegInf = NegInf"

section \<open>The position estimate\<close>

text \<open>
  \<^verbatim>\<open>player.getPosition\<close>, called at the time \<open>now\<close>. Its result is a JavaScript number.
\<close>

definition getPosition :: "int \<Rightarrow> bridge \<Rightarrow> double" where
  "getPosition now st =
     (if activeZone st = None then Dbl 0
      else
        (let seconds = (if lastKnownZoneState st = ''playing''
                        then dadd (lastSeekSeconds st)
                               (ddiv (dsub now (lastSeekUpdate st)) 1000)
                        else Dbl (lastSeekSeconds st));
             clamped = (case activeLengthSeconds st of
                          Some l \<Rightarrow> min seconds (Dbl l) | None \<Rightarrow> seconds)
         in max (Dbl 0) (dfloor (dmul clamped 1000000))))"

section \<open>Events\<close>

text \<open>
  One event is one callback from a collaborator, run to its end at the time \<open>now\<close>, and
  the queued artwork continuations after it. The callbacks that end the process
  (\<^verbatim>\<open>quit\<close> and the two signals) are not events of the model: nothing follows them.
\<close>

datatype event =
    CorePaired core
  | CoreUnpaired core
  | Subscription subscription_msg
  | Command control
  | SeekRequest int
  | SetPosition position_event
  | Raise
  | GetImageDone string image_result
  | WriteFileDone string string bool

fun handle :: "env \<Rightarrow> int \<Rightarrow> event \<Rightarrow> bridge \<Rightarrow> error + bridge" where
  "handle E now (CorePaired c) st = Inr (onCorePaired c st)"
| "handle E now (CoreUnpaired c) st = Inr (onCoreUnpaired E now c st)"
| "handle E now (Subscription msg) st = Inr (onSubscription E now msg st)"
| "handle E now (Command c) st = Inr (sendTransportCommand E now c st)"
| "handle E now (SeekRequest offset) st = on_seek E now offset st"
| "handle E now (SetPosition event) st = on_position E now event st"
| "handle E now Raise st = Inr st"
| "handle E now (GetImageDone k res) st = Inr (get_image_callback E k res st)"
| "handle E now (WriteFileDone k p werr) st = Inr (writeFile_callback E k p werr st)"

definition deliver :: "env \<Rightarrow> int \<Rightarrow> event \<Rightarrow> bridge \<Rightarrow> error + bridge" where
  "deliver E now ev st =
     (case handle E now ev st of Inl e \<Rightarrow> Inl e | Inr st' \<Rightarrow> Inr (run_art_jobs st'))"

text \<open>
  \<open>attainable\<close> holds of every state the module can come to: the callbacks arrive in any
  order, and a run is followed no further once a callback has thrown.
\<close>

inductive attainable :: "env \<Rightarrow> bridge \<Rightarrow> bool" for E :: env where
  at_start: "attainable E (initial E t0)"
| at_step: "attainable E st \<Longrightarrow> deliver E now ev st = Inr st' \<Longrightarrow> attainable E st'"

text \<open>
  \<open>reachable\<close> holds of the states of an orderly session, in which the subscription's
  snapshot and changes are delivered only while the transport handle is set (\<open>enabled\<close>).
  The source does not enforce that order: \<^verbatim>\<open>onCoreUnpaired\<close> does not cancel the
  subscription and the subscription callback does not look at the handle.
\<close>

fun enabled :: "event \<Rightarrow> bridge \<Rightarrow> bool" where
  "enabled (Subscription (Subscribed zs)) st = (transport st \<noteq> None)"
| "enabled (Subscription (Changed changeSet)) st = (transport st \<noteq> None)"
| "enabled ev st = True"

inductive reachable :: "env \<Rightarrow> bridge \<Rightarrow> bool" for E :: env where
  start: "reachable E (initial E t0)"
| step: "reachable E st \<Longrightarrow> enabled ev st \<Longrightarrow> deliver E now ev st = Inr st'
         \<Longrightarrow> reachable E st'"

section \<open>The claims' reference notions\<close>

text \<open>
  A fallback chain, as the specification words it: the first candidate that is present
  and not empty.
\<close>

fun first_non_empty :: "string option list \<Rightarrow> string option" where
  "first_non_empty [] = None"
| "first_non_empty (None # cs) = first_non_empty cs"
| "first_non_empty (Some s # cs) = (if s \<noteq> [] then Some s else first_non_empty cs)"

text \<open>A candidate that is empty counts as absent.\<close>

definition non_empty :: "string option \<Rightarrow> string option" where
  "non_empty c = (case c of None \<Rightarrow> None | Some s \<Rightarrow> if s \<noteq> [] then Some s else None)"

text \<open>
  The candidates of a chain, as the specification words them: an explicit field is the
  text it holds, and line \<open>n\<close> of a block is the text the block holds under the key
  \<^verbatim>\<open>line\<close>\<open>n\<close>.
\<close>

definition stated_text :: "jsval \<Rightarrow> string option" where
  "stated_text v = (case v of JStr s \<Rightarrow> Some s | _ \<Rightarrow> None)"

definition stated_line :: "jsval \<Rightarrow> string \<Rightarrow> string option" where
  "stated_line block key =
     (case block of
        JObj ps \<Rightarrow> (case map_of ps key of Some v \<Rightarrow> stated_text v | None \<Rightarrow> None)
      | _ \<Rightarrow> None)"

definition stated_title :: "zone \<Rightarrow> string option" where
  "stated_title z =
     first_non_empty
       [stated_text (title (np_of z)),
        stated_line (three_line (np_of z)) ''line1'',
        stated_line (two_line (np_of z)) ''line2'',
        stated_line (one_line (np_of z)) ''line1'',
        display_name z,
        Some ''Roon'']"

definition stated_artist :: "zone \<Rightarrow> string option" where
  "stated_artist z =
     first_non_empty
       [stated_text (artist (np_of z)),
        stated_text (artist_line (np_of z)),
        stated_line (three_line (np_of z)) ''line2'',
        stated_line (two_line (np_of z)) ''line1'',
        Some ''Roon'']"

definition stated_album :: "zone \<Rightarrow> string option" where
  "stated_album z =
     first_non_empty
       [stated_text (album (np_of z)),
        stated_line (three_line (np_of z)) ''line3'',
        Some em_dash]"

text \<open>
  The candidates as the chains of the module resolve them. A text stands for itself and
  a number other than zero for its decimal text, whatever the key. Of a record the line
  is the text under the key, if there is one and it is not empty; otherwise the first
  text among the record's fields, in the record's own order, stands in for the line.
\<close>

definition first_string :: "(string \<times> jsval) list \<Rightarrow> string option" where
  "first_string ps =
     (case filter is_string (map snd ps) of JStr s # rest \<Rightarrow> Some s | _ \<Rightarrow> None)"

definition line_of :: "env \<Rightarrow> jsval \<Rightarrow> string \<Rightarrow> string option" where
  "line_of E v key =
     (case v of
        JStr s \<Rightarrow> Some s
      | JNum r \<Rightarrow> (if r = 0 then None else Some (numberToString E r))
      | JObj ps \<Rightarrow> first_non_empty [stated_line v key, first_string ps]
      | _ \<Rightarrow> None)"

text \<open>
  The position estimate, as the specification words it: a playing anchor has advanced by
  the wall-clock time since it was taken (milliseconds, hence the division), a frozen one
  has not; the estimate is kept between zero and a known length, and the microseconds
  are the floor of a million times the seconds. \<open>exact_position\<close> reads the words as
  arithmetic on real numbers.
\<close>

definition exact_elapsed :: "int \<Rightarrow> bridge \<Rightarrow> real" where
  "exact_elapsed now st =
     (if lastKnownZoneState st = ''playing''
      then lastSeekSeconds st + real_of_int (now - lastSeekUpdate st) / 1000
      else lastSeekSeconds st)"

definition exact_position :: "int \<Rightarrow> bridge \<Rightarrow> int" where
  "exact_position now st =
     \<lfloor>max 0 (case activeLengthSeconds st of
                None \<Rightarrow> exact_elapsed now st
              | Some l \<Rightarrow> min (exact_elapsed now st) l) * 1000000\<rfloor>"

text \<open>
  The same words read as the arithmetic of the host language, every operation rounded to
  a double.
\<close>

definition elapsed :: "int \<Rightarrow> bridge \<Rightarrow> double" where
  "elapsed now st =
     (if lastKnownZoneState st = ''playing''
      then dadd (lastSeekSeconds st) (ddiv (dsub now (lastSeekUpdate st)) 1000)
      else Dbl (lastSeekSeconds st))"

definition upper_clamp :: "real option \<Rightarrow> double \<Rightarrow> double" where
  "upper_clamp len e = (case len of None \<Rightarrow> e | Some l \<Rightarrow> min e (Dbl l))"

definition micros :: "double \<Rightarrow> double" where
  "micros e = max (Dbl 0) (dfloor (dmul e 1000000))"

text \<open>A JavaScript number that is a whole number and not negative.\<close>

definition whole :: "double \<Rightarrow> bool" where
  "whole d = (case d of Dbl a \<Rightarrow> 0 \<le> a \<and> a = of_int \<lfloor>a\<rfloor> | _ \<Rightarrow> False)"

text \<open>
  Zone selection, as the specification words it: \<open>select\<close> takes the preference, the
  registry and the current active id, and the first rule that applies wins: a zone whose
  id, display name, or any output's id or display name equals the non-empty preference
  up to case; a playing zone; the zone of the current active id if the registry still has
  it; any zone (the first). Within a rule the first zone in the registry's order is taken.
\<close>

definition ci_equal :: "string \<Rightarrow> string \<Rightarrow> bool" where
  "ci_equal a b = (toLowerCase a = toLowerCase b)"

definition opt_ci_equal :: "string option \<Rightarrow> string \<Rightarrow> bool" where
  "opt_ci_equal a b = (case a of None \<Rightarrow> False | Some s \<Rightarrow> ci_equal s b)"

definition matches_preference :: "string \<Rightarrow> zone \<Rightarrow> bool" where
  "matches_preference preference z =
     (ci_equal (zone_id z) preference
      \<or> opt_ci_equal (display_name z) preference
      \<or> (case outputs z of
            None \<Rightarrow> False
          | Some os \<Rightarrow>
              list_ex (\<lambda>out. case out of
                          None \<Rightarrow> False
                        | Some ou \<Rightarrow> opt_ci_equal (output_id ou) preference
                                     \<or> opt_ci_equal (output_display_name ou) preference) os))"

definition select :: "string \<Rightarrow> (string \<times> zone) list \<Rightarrow> string option \<Rightarrow> zone option" where
  "select preference registry currentActiveId =
     (case find (\<lambda>z. preference \<noteq> [] \<and> matches_preference preference z) (obj_values registry) of
        Some z \<Rightarrow> Some z
      | None \<Rightarrow>
          (case find (\<lambda>z. state z = Some ''playing'') (obj_values registry) of
             Some z \<Rightarrow> Some z
           | None \<Rightarrow>
               (case (case currentActiveId of None \<Rightarrow> None | Some a \<Rightarrow> obj_get registry a) of
                  Some z \<Rightarrow> Some z
                | None \<Rightarrow> (case obj_values registry of [] \<Rightarrow> None | z # others \<Rightarrow> Some z))))"

text \<open>
  Zone \<open>a\<close> is the active zone: the active id is \<open>a\<close> and the zone held as active
  carries that id.
\<close>

definition active_as :: "string \<Rightarrow> bridge \<Rightarrow> bool" where
  "active_as a s = (activeZoneId s = Some a \<and> (\<exists>z. activeZone s = Some z \<and> zone_id z = a))"

text \<open>
  The idle state of the selection: no active id, no active zone, the idle projection
  (title \<^verbatim>\<open>Roon\<close>, placeholders, \<^verbatim>\<open>Stopped\<close>, controls off but \<^verbatim>\<open>canControl\<close> while a
  transport is set) and the anchor reset.
\<close>

definition idle :: "env \<Rightarrow> bridge \<Rightarrow> bool" where
  "idle E s =
     (activeZoneId s = None \<and> activeZone s = None
      \<and> player s = idle_player E (transport s \<noteq> None)
      \<and> lastSeekSeconds s = 0 \<and> activeLengthSeconds s = None
      \<and> lastKnownZoneState s = ''stopped'')"



text \<open>
  An image key is resolved: it is mapped to a path whose file exists (the cache hit of
  \<^verbatim>\<open>resolveArtFile\<close>). A fetch for a pending key completes: the image arrives with a
  content type and the file write succeeds.
\<close>

definition resolved :: "bridge \<Rightarrow> string \<Rightarrow> bool" where
  "resolved s k = (case keyToFilePath s k of None \<Rightarrow> False | Some p \<Rightarrow> p \<noteq> [] \<and> p \<in> files s)"

definition fetched :: "env \<Rightarrow> string \<Rightarrow> string \<Rightarrow> bridge \<Rightarrow> bridge" where
  "fetched E k contentType s =
     writeFile_callback E k
       (targetBase E k @ ''.'' @ (if mentions_png contentType then ''png'' else ''jpg''))
       False
       (get_image_callback E k (ImageOk contentType) s)"

text \<open>
  With no zone active the seek anchor is reset: no active id, zero seconds, not playing,
  no length.
\<close>

definition anchor_reset :: "bridge \<Rightarrow> bool" where
  "anchor_reset s =
     (activeZone s = None \<longrightarrow>
        activeZoneId s = None \<and> lastSeekSeconds s = 0
        \<and> lastKnownZoneState s = ''stopped'' \<and> activeLengthSeconds s = None)"

section \<open>Concrete inputs\<close>

text \<open>Decimal digits of a natural number, for the rendering of whole numbers.\<close>

fun decimal :: "nat \<Rightarrow> string" where
  "decimal n =
     (if n < 10 then [char_of (48 + n)]
      else decimal (n div 10) @ [char_of (48 + n mod 10)])"

declare decimal.simps [simp del]

text \<open>
  An environment as the player library builds object paths for the player name
  \<^verbatim>\<open>roon\<close>, with whole numbers rendered in decimal and no zone preference set.
\<close>

definition roon_env :: env where
  "roon_env =
     \<lparr> objectPath = (\<lambda>subpath. ''/org/node/mediaplayer/roon/'' @ subpath),
       numberToString = (\<lambda>r. (if r < 0 then ''-'' else []) @ decimal (nat \<lfloor>\<bar>r\<bar>\<rfloor>)),
       ZONE_PREFERENCE = [],
       artCacheDir = ''/tmp/roon-mpris-art'' \<rparr>"

text \<open>A zone with nothing but its id; the concrete zones below are built from it.\<close>

definition bare_zone :: "string \<Rightarrow> zone" where
  "bare_zone zid =
     \<lparr> zone_id = zid, display_name = None, state = None, now_playing = None,
       is_play_allowed = False, is_pause_allowed = False, is_seek_allowed = False,
       is_next_allowed = False, is_previous_allowed = False, settings = None,
       outputs = None, queue_time_remaining = None \<rparr>"

text \<open>The zone of the specification's fallback example.\<close>

definition three_line_zone :: zone where
  "three_line_zone =
     (bare_zone ''z1'')
       \<lparr>now_playing := Some (empty_now_playing
          \<lparr>three_line := JObj [(''line1'', JStr ''T''), (''line2'', JStr ''A''),
                               (''line3'', JStr ''Al'')]\<rparr>)\<rparr>"

text \<open>
  A three-line block whose third line is empty, and a zone that has a two-line block
  without a second line beside a one-line block.
\<close>

definition no_album_zone :: zone where
  "no_album_zone =
     (bare_zone ''z1'')
       \<lparr>now_playing := Some (empty_now_playing
          \<lparr>three_line := JObj [(''line1'', JStr ''T''), (''line2'', JStr ''A''),
                               (''line3'', JStr [])]\<rparr>)\<rparr>"

definition two_line_zone :: zone where
  "two_line_zone =
     (bare_zone ''z1'')
       \<lparr>now_playing := Some (empty_now_playing
          \<lparr>two_line := JObj [(''line1'', JStr ''X'')],
           one_line := JObj [(''line1'', JStr ''One'')]\<rparr>)\<rparr>"

text \<open>
  The specification's end-to-end example: after pairing, the subscription delivers one
  playing zone \<^verbatim>\<open>z1\<close> at time 5000 ms, 10 s into a track of 200 s.
\<close>

definition core0 :: core where
  "core0 = \<lparr> core_id = ''core-1'', core_display_name = ''Core'',
             core_display_version = ''2.0'' \<rparr>"

definition zone_z1 :: zone where
  "zone_z1 =
     (bare_zone ''z1'')
       \<lparr>state := Some ''playing'',
        now_playing := Some (empty_now_playing
          \<lparr>title := JStr ''Song'', seek_position := Some 10, length_np := Some 200\<rparr>)\<rparr>"

definition paired_state :: bridge where
  "paired_state = onCorePaired core0 (initial roon_env 0)"

definition playing_state :: bridge where
  "playing_state = onSubscription roon_env 5000 (Subscribed (Some [zone_z1])) paired_state"



text \<open>
  A second zone, paused and named \<^verbatim>\<open>kitchen\<close>; the registry with both zones, \<^verbatim>\<open>z1\<close>
  active; and an environment whose preference names the second zone in another case.
\<close>

definition zone_z2 :: zone where
  "zone_z2 = (bare_zone ''z2'')\<lparr>display_name := Some ''kitchen'', state := Some ''paused''\<rparr>"

definition two_zone_state :: bridge where
  "two_zone_state =
     onSubscription roon_env 5000 (Subscribed (Some [zone_z1, zone_z2])) paired_state"

definition kitchen_env :: env where
  "kitchen_env = roon_env\<lparr>ZONE_PREFERENCE := ''Kitchen''\<rparr>"


text \<open>Two change sets: the second zone starts playing; the first zone is removed.\<close>

definition z2_starts_playing :: change_set where
  "z2_starts_playing =
     \<lparr> zones_removed = None, zones_added = None,
       zones_changed = Some [zone_z2\<lparr>state := Some ''playing''\<rparr>],
       zones_seek_changed = None \<rparr>"

definition z1_removed :: change_set where
  "z1_removed =
     \<lparr> zones_removed = Some [''z1''], zones_added = None, zones_changed = None,
       zones_seek_changed = None \<rparr>"


text \<open>The connection to the core is lost while \<^verbatim>\<open>z1\<close> is playing.\<close>

definition unpaired_state :: bridge where
  "unpaired_state = onCoreUnpaired roon_env 9500 core0 playing_state"

text \<open>
  The subscription of the lost core delivers one more snapshot at 9700 ms, after the core
  was unpaired at 9500 ms.
\<close>

definition late_state :: bridge where
  "late_state = onSubscription roon_env 9700 (Subscribed (Some [zone_z1])) unpaired_state"

text \<open>The playing zone reported with a negative length, and the state after its snapshot.\<close>

definition zone_negative_length :: zone where
  "zone_negative_length =
     zone_z1\<lparr>now_playing := Some ((np_of zone_z1)\<lparr>length_np := Some (- 1)\<rparr>)\<rparr>"

definition negative_length_state :: bridge where
  "negative_length_state =
     onSubscription roon_env 5000 (Subscribed (Some [zone_negative_length])) paired_state"




definition no_track_event :: position_event where
  "no_track_event = \<lparr> trackId = None, position = 30000000 \<rparr>"


text \<open>
  The playing zone with an image key, the state after its snapshot (the image request is
  pending), and a change in which that zone pauses.
\<close>

definition art_zone :: zone where
  "art_zone = zone_z1\<lparr>now_playing := Some ((np_of zone_z1)\<lparr>image_key := Some ''k1''\<rparr>)\<rparr>"

definition art_state :: bridge where
  "art_state = onSubscription roon_env 5000 (Subscribed (Some [art_zone])) paired_state"

definition art_zone_paused :: change_set where
  "art_zone_paused =
     \<lparr> zones_removed = None, zones_added = None,
       zones_changed = Some [art_zone\<lparr>state := Some ''paused''\<rparr>],
       zones_seek_changed = None \<rparr>"


section \<open>Metadata fallback chains\<close>

lemma pickText_first_non_empty:
  "pickText E vs = first_non_empty (map (extractText E) vs)"
  by (induction vs) (auto split: option.splits)

lemma extractText_line_val:
  "extractText E (line_val l) =
     (case l of None \<Rightarrow> None | Some s \<Rightarrow> if s \<noteq> [] then Some s else None)"
  by (auto simp: extractText_def line_val_def split: option.splits)

lemma first_non_empty_line:
  "first_non_empty
     ((case l of None \<Rightarrow> None | Some s \<Rightarrow> if s \<noteq> [] then Some s else None) # cs)
   = first_non_empty (l # cs)"
  by (cases l) auto

lemma first_non_empty_append:
  "first_non_empty (xs @ ys) =
     (case first_non_empty xs of Some s \<Rightarrow> Some s | None \<Rightarrow> first_non_empty ys)"
  by (induction xs rule: first_non_empty.induct) auto

lemma chain_with_defaults:
  "Some (case first_non_empty xs of Some t \<Rightarrow> t | None \<Rightarrow> or_else d lit) =
     first_non_empty (xs @ [d, Some lit])" if "lit \<noteq> []"
  using that by (cases d) (auto simp: first_non_empty_append or_else_def split: option.splits)

lemma chain_with_literal:
  "Some (case first_non_empty xs of Some t \<Rightarrow> t | None \<Rightarrow> lit) =
     first_non_empty (xs @ [Some lit])" if "lit \<noteq> []"
  using that by (auto simp: first_non_empty_append split: option.splits)

lemma pickText_lines:
  "pickText E (v # map line_val ls) = first_non_empty (extractText E v # ls)"
  "pickText E (v # w # map line_val ls) =
     first_non_empty (extractText E v # extractText E w # ls)"
proof -
  have "first_non_empty (map (extractText E) (map line_val ls)) = first_non_empty ls"
    by (induction ls rule: first_non_empty.induct) (auto simp: extractText_line_val)
  then have *: "pickText E (map line_val ls) = first_non_empty ls"
    by (simp add: pickText_first_non_empty)
  have cons: "pickText E (u # us) = first_non_empty (extractText E u # rest)"
    if "pickText E us = first_non_empty rest" for u us rest
    using that by (cases "extractText E u") auto
  show "pickText E (v # map line_val ls) = first_non_empty (extractText E v # ls)"
    by (rule cons) (rule *)
  then show "pickText E (v # w # map line_val ls) =
     first_non_empty (extractText E v # extractText E w # ls)"
    by (intro cons) (rule *)
qed

lemma updateMetadata_metadata:
  "metadata (player (updateMetadata E z st)) = zone_metadata E z"
  by (simp add: updateMetadata_def Let_def)

lemma three_line_zone_np:
  "np_of three_line_zone =
     empty_now_playing
       \<lparr>three_line := JObj [(''line1'', JStr ''T''), (''line2'', JStr ''A''),
                            (''line3'', JStr ''Al'')]\<rparr>"
  by (simp add: three_line_zone_def np_of_def bare_zone_def)

lemma first_non_empty_norm: "first_non_empty cs = first_non_empty (map non_empty cs)"
  by (induction cs rule: first_non_empty.induct) (simp_all add: non_empty_def)

lemma find_by_filter: "find P xs = (case filter P xs of [] \<Rightarrow> None | x # rest \<Rightarrow> Some x)"
  by (induction xs) simp_all

lemma first_string_value_first_string:
  "first_string_value ps = non_empty (first_string ps)"
proof (cases "filter is_string (map snd ps)")
  case Nil
  then show ?thesis
    by (simp add: first_string_value_def first_string_def find_by_filter non_empty_def)
next
  case (Cons v rest)
  then have "v \<in> set (filter is_string (map snd ps))"
    by simp
  then have "is_string v"
    by simp
  then obtain c where "v = JStr c"
    by (cases v) simp_all
  with Cons show ?thesis
    by (simp add: first_string_value_def first_string_def find_by_filter non_empty_def)
qed

lemma non_empty_extractLine:
  "non_empty (extractLine E v key) = non_empty (line_of E v key)"
proof (cases v)
  case (JObj ps)
  show ?thesis
  proof (cases "first_string ps")
    case None
    then show ?thesis
      by (simp add: JObj extractLine_def line_of_def stated_line_def stated_text_def obj_get_def
          first_string_value_first_string non_empty_def
          split: option.splits jsval.splits)
  next
    case (Some c)
    then show ?thesis
      by (simp add: JObj extractLine_def line_of_def stated_line_def stated_text_def obj_get_def
          first_string_value_first_string non_empty_def
          split: option.splits jsval.splits)
  qed
qed (simp_all add: extractLine_def line_of_def non_empty_def)

lemma non_empty_extractText:
  "non_empty (extractText E v) = non_empty (line_of E v ''line1'')"
proof (cases v)
  case (JObj ps)
  then have "extractText E v = extractLine E v ''line1''"
    by (simp add: extractText_def)
  then show ?thesis
    by (simp add: non_empty_extractLine)
qed (simp_all add: extractText_def line_of_def non_empty_def)

lemma no_album_zone_np:
  "np_of no_album_zone =
     empty_now_playing
       \<lparr>three_line := JObj [(''line1'', JStr ''T''), (''line2'', JStr ''A''),
                            (''line3'', JStr [])]\<rparr>"
  by (simp add: no_album_zone_def np_of_def bare_zone_def)

lemma two_line_zone_np:
  "np_of two_line_zone =
     empty_now_playing
       \<lparr>two_line := JObj [(''line1'', JStr ''X'')],
        one_line := JObj [(''line1'', JStr ''One'')]\<rparr>"
  "display_name two_line_zone = None"
  by (simp_all add: two_line_zone_def np_of_def bare_zone_def)

text \<open>
  Claim C6. The metadata that \<^verbatim>\<open>updateMetadata\<close> projects resolves each text field by a
  chain in which the first candidate that is present and not empty wins. Title: the
  explicit title, line 1 of the three-line block, line 2 of the two-line block, line 1 of
  the one-line block, the zone's display name, the literal \<^verbatim>\<open>Roon\<close>. Artist: the explicit
  artist, the artist line, line 2 of the three-line block, line 1 of the two-line block,
  \<^verbatim>\<open>Roon\<close>. Album: the explicit album, line 3 of the three-line block, the placeholder.
  A candidate is read by \<open>line_of\<close>: a text is itself, a number other than zero is its
  text, and of a record the candidate is the text under the line's key or, when the
  record has no text there or an empty one, the first text among the record's fields; an
  explicit field that is a record is read as its line 1. For the zone whose
  \<^verbatim>\<open>now_playing\<close> is only the three-line block with lines \<^verbatim>\<open>T\<close>, \<^verbatim>\<open>A\<close>, \<^verbatim>\<open>Al\<close>, the
  projection has title \<^verbatim>\<open>T\<close>, artist \<^verbatim>\<open>A\<close> and album \<^verbatim>\<open>Al\<close>.
\<close>

theorem metadata_fallback_chain:
  fixes E :: env and z :: zone and st :: bridge
  defines "m \<equiv> metadata (player (updateMetadata E z st))"
  defines "ex \<equiv> metadata (player (updateMetadata E three_line_zone st))"
  shows
    "Some (xesam_title m) =
       first_non_empty
         [line_of E (title (np_of z)) ''line1'',
          line_of E (three_line (np_of z)) ''line1'',
          line_of E (two_line (np_of z)) ''line2'',
          line_of E (one_line (np_of z)) ''line1'',
          display_name z,
          Some ''Roon'']
     \<and> map Some (xesam_artist m) =
       [first_non_empty
         [line_of E (artist (np_of z)) ''line1'',
          line_of E (artist_line (np_of z)) ''line1'',
          line_of E (three_line (np_of z)) ''line2'',
          line_of E (two_line (np_of z)) ''line1'',
          Some ''Roon'']]
     \<and> Some (xesam_album m) =
       first_non_empty
         [line_of E (album (np_of z)) ''line1'',
          line_of E (three_line (np_of z)) ''line3'',
          Some em_dash]
     \<and> xesam_title ex = ''T'' \<and> xesam_artist ex = [''A''] \<and> xesam_album ex = ''Al''"
proof -
  have "Some (xesam_title (zone_metadata E z)) =
       first_non_empty
         [extractText E (title (np_of z)),
          extractLine E (three_line (np_of z)) ''line1'',
          extractLine E (two_line (np_of z)) ''line2'',
          extractLine E (one_line (np_of z)) ''line1'',
          display_name z,
          Some ''Roon'']"
    using pickText_lines(1) [of E "title (np_of z)"
        "[extractLine E (three_line (np_of z)) ''line1'',
          extractLine E (two_line (np_of z)) ''line2'',
          extractLine E (one_line (np_of z)) ''line1'']"]
      chain_with_defaults [where lit = "''Roon''" and d = "display_name z" and xs =
        "[extractText E (title (np_of z)),
          extractLine E (three_line (np_of z)) ''line1'',
          extractLine E (two_line (np_of z)) ''line2'',
          extractLine E (one_line (np_of z)) ''line1'']"]
    by (simp add: zone_metadata_def)
  also have "\<dots> =
       first_non_empty
         [line_of E (title (np_of z)) ''line1'',
          line_of E (three_line (np_of z)) ''line1'',
          line_of E (two_line (np_of z)) ''line2'',
          line_of E (one_line (np_of z)) ''line1'',
          display_name z,
          Some ''Roon'']"
    by (subst first_non_empty_norm, subst (2) first_non_empty_norm)
       (simp add: non_empty_extractLine non_empty_extractText)
  finally have t: "Some (xesam_title (zone_metadata E z)) =
       first_non_empty
         [line_of E (title (np_of z)) ''line1'',
          line_of E (three_line (np_of z)) ''line1'',
          line_of E (two_line (np_of z)) ''line2'',
          line_of E (one_line (np_of z)) ''line1'',
          display_name z,
          Some ''Roon'']" .
  have "map Some (xesam_artist (zone_metadata E z)) =
       [first_non_empty
         [extractText E (artist (np_of z)),
          extractText E (artist_line (np_of z)),
          extractLine E (three_line (np_of z)) ''line2'',
          extractLine E (two_line (np_of z)) ''line1'',
          Some ''Roon'']]"
    using pickText_lines(2) [of E "artist (np_of z)" "artist_line (np_of z)"
        "[extractLine E (three_line (np_of z)) ''line2'',
          extractLine E (two_line (np_of z)) ''line1'']"]
      chain_with_literal [where lit = "''Roon''" and xs =
        "[extractText E (artist (np_of z)),
          extractText E (artist_line (np_of z)),
          extractLine E (three_line (np_of z)) ''line2'',
          extractLine E (two_line (np_of z)) ''line1'']"]
    by (simp add: zone_metadata_def)
  also have "\<dots> =
       [first_non_empty
         [line_of E (artist (np_of z)) ''line1'',
          line_of E (artist_line (np_of z)) ''line1'',
          line_of E (three_line (np_of z)) ''line2'',
          line_of E (two_line (np_of z)) ''line1'',
          Some ''Roon'']]"
    by (subst first_non_empty_norm, subst (2) first_non_empty_norm)
       (simp add: non_empty_extractLine non_empty_extractText)
  finally have a: "map Some (xesam_artist (zone_metadata E z)) =
       [first_non_empty
         [line_of E (artist (np_of z)) ''line1'',
          line_of E (artist_line (np_of z)) ''line1'',
          line_of E (three_line (np_of z)) ''line2'',
          line_of E (two_line (np_of z)) ''line1'',
          Some ''Roon'']]" .
  have "Some (xesam_album (zone_metadata E z)) =
       first_non_empty
         [extractText E (album (np_of z)),
          extractLine E (three_line (np_of z)) ''line3'',
          Some em_dash]"
    using pickText_lines(1) [of E "album (np_of z)"
        "[extractLine E (three_line (np_of z)) ''line3'']"]
      chain_with_literal [where lit = em_dash and xs =
        "[extractText E (album (np_of z)),
          extractLine E (three_line (np_of z)) ''line3'']"]
    by (simp add: zone_metadata_def em_dash_def)
  also have "\<dots> =
       first_non_empty
         [line_of E (album (np_of z)) ''line1'',
          line_of E (three_line (np_of z)) ''line3'',
          Some em_dash]"
    by (subst first_non_empty_norm, subst (2) first_non_empty_norm)
       (simp add: non_empty_extractLine non_empty_extractText)
  finally have b: "Some (xesam_album (zone_metadata E z)) =
       first_non_empty
         [line_of E (album (np_of z)) ''line1'',
          line_of E (three_line (np_of z)) ''line3'',
          Some em_dash]" .
  have e: "xesam_title (zone_metadata E three_line_zone) = ''T''
      \<and> xesam_artist (zone_metadata E three_line_zone) = [''A'']
      \<and> xesam_album (zone_metadata E three_line_zone) = ''Al''"
    by (simp add: zone_metadata_def three_line_zone_np empty_now_playing_def
        extractLine_def extractText_def line_val_def obj_get_def first_string_value_def)
  from t a b e show ?thesis
    unfolding m_def ex_def updateMetadata_metadata by simp
qed

text \<open>
  The chains of the zone that has a two-line block without a second line beside a
  one-line block: the title is the two-line block's first line, which stands in for the
  missing second one, and the same line is the artist.
\<close>

theorem metadata_fallback_chain_witness:
  "xesam_title (metadata (player (updateMetadata roon_env two_line_zone paired_state))) = ''X''
   \<and> xesam_artist (metadata (player (updateMetadata roon_env two_line_zone paired_state)))
       = [''X'']
   \<and> xesam_album (metadata (player (updateMetadata roon_env two_line_zone paired_state)))
       = em_dash
   \<and> xesam_title (metadata (player (updateMetadata roon_env three_line_zone paired_state)))
       = ''T''"
  using metadata_fallback_chain [of roon_env two_line_zone paired_state]
  by (auto simp: two_line_zone_np empty_now_playing_def line_of_def stated_line_def
      stated_text_def first_string_def em_dash_def map_eq_Cons_conv)

text \<open>
  Read as the specification words it, line 3 of a three-line block whose third line is
  empty is absent and the album is the placeholder, and a two-line block without a
  second line gives the title nothing, so that the one-line block would. The module
  takes the block's first text in both cases.
\<close>

theorem line_falls_back_to_first_text:
  "xesam_album (metadata (player (updateMetadata roon_env no_album_zone paired_state))) = ''T''
   \<and> stated_album no_album_zone = Some em_dash
   \<and> em_dash \<noteq> ''T''
   \<and> xesam_title (metadata (player (updateMetadata roon_env two_line_zone paired_state)))
       = ''X''
   \<and> stated_title two_line_zone = Some ''One''"
  by (simp add: updateMetadata_metadata zone_metadata_def no_album_zone_np two_line_zone_np
      empty_now_playing_def extractLine_def extractText_def line_val_def obj_get_def
      first_string_value_def stated_album_def stated_title_def stated_line_def
      stated_text_def em_dash_def or_else_def)

section \<open>Evaluating the concrete states\<close>

lemma roon_env_fields:
  "ZONE_PREFERENCE roon_env = []"
  "objectPath roon_env subpath = ''/org/node/mediaplayer/roon/'' @ subpath"
  "artCacheDir roon_env = ''/tmp/roon-mpris-art''"
  by (simp_all add: roon_env_def)

lemmas eval_defs =
  onSubscription_def onZonesSubscribed_def onZonesChanged_def applyChanges_def each_def
  onCorePaired_def onCoreUnpaired_def initial_def setStatus_def
  selectAndActivateZone_def ensureActiveZone_def pickPreferredZone_def
  matchesZonePreference_def id_truthy_def
  removeZone_def addZone_def changeZone_def applySeekUpdate_def patch_seek_def
  obj_values_def obj_set_def obj_get_def obj_delete_def isArrayIndex_def is_digit_def
  activateZone_def updateFromActiveZone_def updateSeekState_def updatePlaybackState_def
  updateMetadata_def updateCapabilities_def resolveArtFile_def idle_player_def
  np_of_def empty_now_playing_def normaliseNumber_def or_else_def hasSeekInfo_def
  bare_zone_def roon_env_fields core0_def Let_def

lemma playing_state_anchor:
  "activeZone playing_state = Some zone_z1"
  "activeZoneId playing_state = Some ''z1''"
  "lastSeekSeconds playing_state = 10"
  "lastSeekUpdate playing_state = 5000"
  "lastKnownZoneState playing_state = ''playing''"
  "activeLengthSeconds playing_state = Some 200"
  "transport playing_state = Some core0"
  "zones playing_state = [(''z1'', zone_z1)]"
  "seeked playing_state = []"
  "transport_calls playing_state = []"
  by (simp_all add: playing_state_def paired_state_def zone_z1_def eval_defs)

section \<open>The registry as a dictionary\<close>

lemma obj_get_insert_index:
  "obj_get (insert_index k v ps) k' = (if k' = k then Some v else obj_get ps k')" if "k \<notin> fst ` set ps"
  using that by (induction ps) (auto simp: obj_get_def)

lemma map_of_replace:
  "map_of (map (\<lambda>(k', v'). if k' = k then (k', v) else (k', v')) ps) k'
     = (if k' = k then (if map_of ps k = None then None else Some v) else map_of ps k')"
  by (induction ps) auto

lemma obj_get_set:
  "obj_get (obj_set ps k v) k' = (if k' = k then Some v else obj_get ps k')"
proof (cases "k \<in> fst ` set ps")
  case True
  then have "map_of ps k \<noteq> None"
    by (simp add: map_of_eq_None_iff)
  with True show ?thesis
    by (auto simp: obj_set_def obj_get_def map_of_replace)
next
  case False
  then have none: "map_of ps k = None"
    by (simp add: map_of_eq_None_iff)
  show ?thesis
  proof (cases "isArrayIndex k")
    case True
    with False have "obj_set ps k v = insert_index k v ps"
      by (simp add: obj_set_def)
    with False show ?thesis
      by (simp add: obj_get_insert_index)
  next
    case other: False
    with False have "obj_set ps k v = ps @ [(k, v)]"
      by (simp add: obj_set_def)
    with none show ?thesis
      by (simp add: obj_get_def map_add_def split: option.splits)
  qed
qed

lemma obj_get_delete:
  "obj_get (obj_delete ps k) k' = (if k' = k then None else obj_get ps k')"
  by (induction ps) (auto simp: obj_get_def obj_delete_def)


lemma obj_get_in_values:
  "obj_get ps k = Some v \<Longrightarrow> v \<in> set (obj_values ps)"
  by (auto simp: obj_get_def obj_values_def dest: map_of_SomeD intro: rev_image_eqI)

lemma obj_set_not_empty: "obj_set ps k v \<noteq> []"
proof -
  have "insert_index k v qs \<noteq> []" for qs
    by (cases qs) (auto split: if_splits)
  then show ?thesis
    by (auto simp: obj_set_def)
qed

section \<open>What activating a zone changes\<close>

lemma activateZone_fields:
  "activeZone (activateZone E now zo st) = zo"
  "activeZoneId (activateZone E now zo st) = map_option zone_id zo"
  "zones (activateZone E now zo st) = zones st"
  "transport (activateZone E now zo st) = transport st"
  "activeCore (activateZone E now zo st) = activeCore st"
  "imageSvc (activateZone E now zo st) = imageSvc st"
  "seeked (activateZone E now zo st) = seeked st"
  "transport_calls (activateZone E now zo st) = transport_calls st"
  by (cases zo; simp add: activateZone_def updateFromActiveZone_def updateSeekState_def
      updatePlaybackState_def updateMetadata_def updateCapabilities_def resolveArtFile_def
      setStatus_def Let_def split: option.splits)+

lemma activateZone_None_player:
  "player (activateZone E now None st) = idle_player E (transport st \<noteq> None)"
  "lastSeekSeconds (activateZone E now None st) = 0"
  "activeLengthSeconds (activateZone E now None st) = None"
  "lastKnownZoneState (activateZone E now None st) = ''stopped''"
  by (simp_all add: activateZone_def setStatus_def Let_def split: option.splits)

lemma activateZone_Some_trackid:
  "metadata (player (activateZone E now (Some z) st)) = zone_metadata E z"
  by (simp add: activateZone_def updateFromActiveZone_def updateSeekState_def
      updatePlaybackState_def updateMetadata_def updateCapabilities_def resolveArtFile_def
      setStatus_def Let_def split: option.splits)

section \<open>Seek updates\<close>




section \<open>Zone selection\<close>

lemma toLowerCase_Nil: "toLowerCase s = toLowerCase p \<Longrightarrow> p \<noteq> [] \<Longrightarrow> s \<noteq> []"
  by (auto simp: toLowerCase_def)

lemma lower_equals_ci:
  "p \<noteq> [] \<Longrightarrow> lower_equals a (toLowerCase p) = opt_ci_equal a p"
  by (cases a) (auto simp: lower_equals_def opt_ci_equal_def ci_equal_def toLowerCase_def)

lemma matchesZonePreference_spec:
  "matchesZonePreference E z
     = (ZONE_PREFERENCE E \<noteq> [] \<and> matches_preference (ZONE_PREFERENCE E) z)"
proof (cases "ZONE_PREFERENCE E = []")
  case True
  then show ?thesis by (simp add: matchesZonePreference_def)
next
  case False
  then have empty: "\<not> ci_equal [] (ZONE_PREFERENCE E)"
    by (simp add: ci_equal_def toLowerCase_def)
  have id: "ci_equal s (ZONE_PREFERENCE E) = (toLowerCase s = toLowerCase (ZONE_PREFERENCE E))"
    for s by (simp add: ci_equal_def)
  have outs:
    "(\<lambda>out. case out of
              None \<Rightarrow> False
            | Some ou \<Rightarrow>
                (if lower_equals (output_id ou) (zonePreferenceLower E) then True
                 else if lower_equals (output_display_name ou) (zonePreferenceLower E)
                 then True else False))
     = (\<lambda>out. case out of
              None \<Rightarrow> False
            | Some ou \<Rightarrow> opt_ci_equal (output_id ou) (ZONE_PREFERENCE E)
                         \<or> opt_ci_equal (output_display_name ou) (ZONE_PREFERENCE E))"
    using False
    by (auto simp: fun_eq_iff lower_equals_ci zonePreferenceLower_def split: option.splits)
  show ?thesis
    unfolding matchesZonePreference_def matches_preference_def outs
    using False empty
    by (cases "outputs z")
       (auto simp: id [symmetric] lower_equals_ci zonePreferenceLower_def)
qed

lemma pickPreferredZone_spec:
  "pickPreferredZone E zs =
     (case find (\<lambda>z. ZONE_PREFERENCE E \<noteq> [] \<and> matches_preference (ZONE_PREFERENCE E) z) zs of
        Some z \<Rightarrow> Some z
      | None \<Rightarrow> find (\<lambda>z. state z = Some ''playing'') zs)"
proof -
  have "(if ZONE_PREFERENCE E \<noteq> [] then find (matchesZonePreference E) zs else None)
          = find (\<lambda>z. ZONE_PREFERENCE E \<noteq> [] \<and> matches_preference (ZONE_PREFERENCE E) z) zs"
    by (induction zs) (auto simp: matchesZonePreference_spec)
  then show ?thesis
    by (simp add: pickPreferredZone_def)
qed

lemma selectAndActivateZone_select:
  assumes "activeZoneId st \<noteq> Some []"
  shows "selectAndActivateZone E now st
           = activateZone E now (select (ZONE_PREFERENCE E) (zones st) (activeZoneId st)) st"
proof (cases "obj_values (zones st)")
  case Nil
  then have "zones st = []" by (simp add: obj_values_def)
  then show ?thesis
    by (simp add: selectAndActivateZone_def select_def obj_values_def obj_get_def split: option.splits)
next
  case (Cons first others)
  have cur: "(if id_truthy (activeZoneId st) then obj_get (zones st) (the (activeZoneId st)) else None)
          = (case activeZoneId st of None \<Rightarrow> None | Some a \<Rightarrow> obj_get (zones st) a)"
    using assms by (cases "activeZoneId st") (auto simp: id_truthy_def)
  show ?thesis
    unfolding selectAndActivateZone_def select_def Cons cur pickPreferredZone_spec
    by (simp split: option.splits)
qed

lemma find_in_set: "find P xs = Some x \<Longrightarrow> x \<in> set xs"
  by (induction xs) (auto split: if_splits)

lemma select_in_registry:
  "select p reg cur = Some z \<Longrightarrow> z \<in> set (obj_values reg)"
  by (auto simp: select_def obj_get_in_values find_in_set split: option.splits list.splits)

lemma select_None: "select p reg cur = None \<longleftrightarrow> reg = []"
proof
  assume "select p reg cur = None"
  then show "reg = []"
    by (cases reg) (auto simp: select_def obj_values_def split: option.splits)
next
  assume "reg = []"
  then show "select p reg cur = None"
    by (simp add: select_def obj_values_def obj_get_def split: option.splits)
qed

text \<open>
  Claim C3. The zone that \<^verbatim>\<open>selectAndActivateZone\<close> activates is a function of the
  preference, the registry and the current active id alone, namely \<open>select\<close>: first a
  zone matching the non-empty preference up to case (by id, display name, or an output's
  id or display name), else a playing zone, else the zone of the current active id if the
  registry still has it, else the first zone. The result is a zone of the registry, and it
  is \<^verbatim>\<open>null\<close> exactly when the registry is empty. The current active id is \<^verbatim>\<open>null\<close> or
  a non-empty id, as the transport's zone ids are.
\<close>

theorem select_tie_break:
  assumes "activeZoneId st \<noteq> Some []"
  shows
    "activeZone (selectAndActivateZone E now st)
       = select (ZONE_PREFERENCE E) (zones st) (activeZoneId st)
     \<and> activeZoneId (selectAndActivateZone E now st)
       = map_option zone_id (select (ZONE_PREFERENCE E) (zones st) (activeZoneId st))
     \<and> (select (ZONE_PREFERENCE E) (zones st) (activeZoneId st) = None) = (zones st = [])
     \<and> (case select (ZONE_PREFERENCE E) (zones st) (activeZoneId st) of
          None \<Rightarrow> True | Some z \<Rightarrow> z \<in> set (obj_values (zones st)))"
  using select_in_registry [of "ZONE_PREFERENCE E" "zones st" "activeZoneId st"]
  by (simp add: selectAndActivateZone_select [OF assms] activateZone_fields select_None
      split: option.splits)

lemma two_zone_state_fields:
  "activeZone two_zone_state = Some zone_z1"
  "activeZoneId two_zone_state = Some ''z1''"
  "transport two_zone_state = Some core0"
  "zones two_zone_state = [(''z1'', zone_z1), (''z2'', zone_z2)]"
  by (simp_all add: two_zone_state_def paired_state_def zone_z1_def zone_z2_def eval_defs)

lemma lower_Kitchen: "toLowerCase ''Kitchen'' = ''kitchen''" "toLowerCase ''kitchen'' = ''kitchen''"
  "toLowerCase ''z1'' = ''z1''" "toLowerCase ''z2'' = ''z2''"
  by code_simp+

text \<open>
  With two zones, \<^verbatim>\<open>z1\<close> playing and active and \<^verbatim>\<open>z2\<close> named \<^verbatim>\<open>kitchen\<close>: the
  preference \<^verbatim>\<open>Kitchen\<close> selects \<^verbatim>\<open>z2\<close>, no preference selects the playing \<^verbatim>\<open>z1\<close>.
\<close>

theorem select_tie_break_witness:
  "activeZoneId two_zone_state = Some ''z1''
   \<and> activeZone (selectAndActivateZone kitchen_env 9000 two_zone_state) = Some zone_z2
   \<and> activeZone (selectAndActivateZone roon_env 9000 two_zone_state) = Some zone_z1"
proof -
  have h: "activeZoneId two_zone_state \<noteq> Some []"
    by (simp add: two_zone_state_fields)
  have "select ''Kitchen'' (zones two_zone_state) (activeZoneId two_zone_state) = Some zone_z2"
    by (simp add: select_def two_zone_state_fields obj_values_def matches_preference_def
        ci_equal_def opt_ci_equal_def lower_Kitchen zone_z1_def zone_z2_def bare_zone_def)
  moreover
  have "select [] (zones two_zone_state) (activeZoneId two_zone_state) = Some zone_z1"
    by (simp add: select_def two_zone_state_fields obj_values_def zone_z1_def zone_z2_def bare_zone_def)
  ultimately show ?thesis
    using select_tie_break [OF h, of kitchen_env 9000] select_tie_break [OF h, of roon_env 9000]
    by (simp add: kitchen_env_def roon_env_fields two_zone_state_fields)
qed

section \<open>Change sets\<close>

lemma foldl_preserves:
  assumes "P s" and "\<And>s x. x \<in> set xs \<Longrightarrow> P s \<Longrightarrow> P (f s x)"
  shows "P (foldl f s xs)"
  using assms by (induction xs arbitrary: s) auto

lemma each_preserves:
  assumes "P s" and "\<And>s x l. xs = Some l \<Longrightarrow> x \<in> set l \<Longrightarrow> P s \<Longrightarrow> P (f s x)"
  shows "P (each f xs s)"
  using assms by (cases xs) (auto simp: each_def intro: foldl_preserves)

lemma applySeekUpdate_fields:
  "activeZoneId (applySeekUpdate now s su) = activeZoneId s"
  "activeZone (applySeekUpdate now s su) = activeZone s"
  "transport (applySeekUpdate now s su) = transport s"
  "player (applySeekUpdate now s su) = player s"
  "lastKnownZoneState (applySeekUpdate now s su) = lastKnownZoneState s"
  by (simp_all add: applySeekUpdate_def updateSeekState_def split: option.splits)

lemma applySeekUpdate_inactive:
  "activeZoneId s = None \<Longrightarrow> applySeekUpdate now s su = s\<lparr>zones := zones (applySeekUpdate now s su)\<rparr>"
  by (simp add: applySeekUpdate_def split: option.splits)

lemma sticky_steps:
  assumes "activeZoneId s = Some a"
  shows "x \<in> set rs \<Longrightarrow> a \<notin> set rs \<Longrightarrow> activeZoneId (removeZone E now s x) = Some a"
    and "activeZoneId (addZone s z) = Some a"
    and "activeZoneId (changeZone E now s z) = Some a"
    and "activeZoneId (applySeekUpdate now s su) = Some a"
  using assms
  by (auto simp: removeZone_def addZone_def changeZone_def activateZone_fields applySeekUpdate_fields)

lemma sticky_zone_steps:
  assumes "active_as a s"
  shows "x \<in> set rs \<Longrightarrow> a \<notin> set rs \<Longrightarrow> active_as a (removeZone E now s x)"
    and "active_as a (addZone s z)"
    and "active_as a (changeZone E now s z)"
    and "active_as a (applySeekUpdate now s su)"
  using assms
  by (auto simp: active_as_def removeZone_def addZone_def changeZone_def activateZone_fields
      applySeekUpdate_fields)

lemma applyChanges_preserves:
  assumes init: "P st"
    and rem: "\<And>s x rs. zones_removed cs = Some rs \<Longrightarrow> x \<in> set rs \<Longrightarrow> P s
                \<Longrightarrow> P (removeZone E now s x)"
    and add: "\<And>s z. P s \<Longrightarrow> P (addZone s z)"
    and chg: "\<And>s z. P s \<Longrightarrow> P (changeZone E now s z)"
    and seek: "\<And>s su. P s \<Longrightarrow> P (applySeekUpdate now s su)"
  shows "P (applyChanges E now cs st)"
proof -
  have 1: "P (each (removeZone E now) (zones_removed cs) st)"
    by (rule each_preserves [where P = P, OF init]) (rule rem)
  have 2: "P (each addZone (zones_added cs) (each (removeZone E now) (zones_removed cs) st))"
    by (rule each_preserves [where P = P, OF 1]) (rule add)
  have 3: "P (each (changeZone E now) (zones_changed cs)
                (each addZone (zones_added cs)
                   (each (removeZone E now) (zones_removed cs) st)))"
    by (rule each_preserves [where P = P, OF 2]) (rule chg)
  show ?thesis
    unfolding applyChanges_def
    by (rule each_preserves [where P = P, OF 3]) (rule seek)
qed

text \<open>
  Claim C4. While zone \<open>a\<close> is active (its id is truthy, so that the handler's test
  \<^verbatim>\<open>!activeZoneId\<close> sees an active zone), a change set whose \<^verbatim>\<open>zones_removed\<close> does not
  contain \<open>a\<close> leaves \<open>a\<close> the active id, and the zone held as active still carries that
  id: selection is not run again, whatever the other zones do.
\<close>

theorem active_zone_sticky:
  assumes active: "activeZoneId st = Some a" and truthy: "a \<noteq> []"
    and kept: "\<forall>rs. zones_removed cs = Some rs \<longrightarrow> a \<notin> set rs"
  shows "activeZoneId (onZonesChanged E now cs st) = Some a
         \<and> (\<forall>z. activeZone st = Some z \<and> zone_id z = a
               \<longrightarrow> (\<exists>z'. activeZone (onZonesChanged E now cs st) = Some z' \<and> zone_id z' = a))"
proof -
  have id: "activeZoneId (applyChanges E now cs st) = Some a"
    by (rule applyChanges_preserves [where P = "\<lambda>s. activeZoneId s = Some a"])
       (use active kept in \<open>auto intro: sticky_steps\<close>)
  then have same: "onZonesChanged E now cs st = applyChanges E now cs st"
    using truthy by (simp add: onZonesChanged_def id_truthy_def)
  have "\<exists>z'. activeZone (applyChanges E now cs st) = Some z' \<and> zone_id z' = a"
    if "activeZone st = Some z \<and> zone_id z = a" for z
  proof -
    from active that have "active_as a st"
      by (simp add: active_as_def)
    then have "active_as a (applyChanges E now cs st)"
      by (rule applyChanges_preserves [where P = "active_as a"])
         (use kept in \<open>auto intro: sticky_zone_steps\<close>)
    then show ?thesis by (simp add: active_as_def)
  qed
  with id same show ?thesis
    by auto
qed

text \<open>
  With \<^verbatim>\<open>z1\<close> active, a change in which \<^verbatim>\<open>z2\<close> starts playing leaves \<^verbatim>\<open>z1\<close> active.
\<close>

theorem active_zone_sticky_witness:
  "activeZoneId two_zone_state = Some ''z1''
   \<and> zones_removed z2_starts_playing = None
   \<and> obj_get (zones (onZonesChanged roon_env 9000 z2_starts_playing two_zone_state)) ''z2''
       = Some (zone_z2\<lparr>state := Some ''playing''\<rparr>)
   \<and> activeZoneId (onZonesChanged roon_env 9000 z2_starts_playing two_zone_state) = Some ''z1''"
proof -
  have a: "activeZoneId two_zone_state = Some ''z1''" and b: "''z1'' \<noteq> []"
    and c: "\<forall>rs. zones_removed z2_starts_playing = Some rs \<longrightarrow> ''z1'' \<notin> set rs"
    by (simp_all add: two_zone_state_fields z2_starts_playing_def)
  have "obj_get (zones (onZonesChanged roon_env 9000 z2_starts_playing two_zone_state)) ''z2''
       = Some (zone_z2\<lparr>state := Some ''playing''\<rparr>)"
    by (simp add: onZonesChanged_def applyChanges_def each_def z2_starts_playing_def
        changeZone_def two_zone_state_fields id_truthy_def obj_get_set zone_z2_def bare_zone_def)
  with active_zone_sticky [OF a b c, of roon_env 9000] a show ?thesis
    by (simp add: z2_starts_playing_def)
qed

section \<open>Removing the active zone\<close>

lemma activateZone_None_idle: "idle E (activateZone E now None s)"
  by (simp add: idle_def activateZone_fields activateZone_None_player)

lemma idle_zones_update: "idle E s \<Longrightarrow> idle E (s\<lparr>zones := zs\<rparr>)"
  by (simp add: idle_def)

lemma idle_steps:
  assumes "idle E s"
  shows "idle E (removeZone E now s x)"
    and "idle E (addZone s z)"
    and "idle E (changeZone E now s z)"
    and "idle E (applySeekUpdate now s su)"
  using assms
  by (auto simp: idle_def removeZone_def addZone_def changeZone_def applySeekUpdate_fields
      applySeekUpdate_def split: option.splits)

lemma removal_deactivates:
  "a \<in> set rs \<Longrightarrow> activeZoneId s = Some a \<Longrightarrow> idle E (foldl (removeZone E now) s rs)"
proof (induction rs arbitrary: s)
  case Nil
  then show ?case by simp
next
  case (Cons x rs)
  show ?case
  proof (cases "x = a")
    case True
    with Cons.prems have "idle E (removeZone E now s x)"
      by (simp add: removeZone_def activateZone_None_idle)
    then have "idle E (foldl (removeZone E now) (removeZone E now s x) rs)"
      by (rule foldl_preserves) (rule idle_steps)
    then show ?thesis by simp
  next
    case False
    with Cons.prems have "a \<in> set rs" and "activeZoneId (removeZone E now s x) = Some a"
      by (auto simp: removeZone_def)
    then have "idle E (foldl (removeZone E now) (removeZone E now s x) rs)"
      by (rule Cons.IH)
    then show ?thesis by simp
  qed
qed

lemma applyChanges_transport: "transport (applyChanges E now cs st) = transport st"
  by (rule applyChanges_preserves [where P = "\<lambda>s. transport s = transport st"])
     (auto simp: removeZone_def addZone_def changeZone_def activateZone_fields applySeekUpdate_fields)

lemma applyChanges_idle:
  assumes "activeZoneId st = Some a" and "zones_removed cs = Some rs" and "a \<in> set rs"
  shows "idle E (applyChanges E now cs st)"
proof -
  have 1: "idle E (each (removeZone E now) (zones_removed cs) st)"
    using assms by (simp add: each_def removal_deactivates)
  have 2: "idle E (each addZone (zones_added cs) (each (removeZone E now) (zones_removed cs) st))"
    by (rule each_preserves [where P = "idle E", OF 1]) (rule idle_steps)
  have 3: "idle E (each (changeZone E now) (zones_changed cs)
                (each addZone (zones_added cs)
                   (each (removeZone E now) (zones_removed cs) st)))"
    by (rule each_preserves [where P = "idle E", OF 2]) (rule idle_steps)
  show ?thesis
    unfolding applyChanges_def
    by (rule each_preserves [where P = "idle E", OF 3]) (rule idle_steps)
qed

lemma activateZone_Some_status:
  "playbackStatus (player (activateZone E now (Some z) st)) = mapPlaybackStatus (state z)"
  by (simp add: activateZone_def updateFromActiveZone_def updateSeekState_def
      updatePlaybackState_def updateMetadata_def updateCapabilities_def resolveArtFile_def
      setStatus_def Let_def split: option.splits)

lemma z1_removed_two_zones:
  "onZonesChanged roon_env 9000 z1_removed two_zone_state
     = activateZone roon_env 9000 (Some zone_z2)
         (activateZone roon_env 9000 None (two_zone_state\<lparr>zones := [(''z2'', zone_z2)]\<rparr>))"
proof -
  have app: "applyChanges roon_env 9000 z1_removed two_zone_state
      = activateZone roon_env 9000 None (two_zone_state\<lparr>zones := [(''z2'', zone_z2)]\<rparr>)"
    by (simp add: applyChanges_def each_def z1_removed_def removeZone_def
        two_zone_state_fields obj_delete_def)
  have "select [] [(''z2'', zone_z2)] None = Some zone_z2"
    by (simp add: select_def obj_values_def zone_z2_def bare_zone_def)
  then show ?thesis
    by (simp add: onZonesChanged_def app activateZone_fields id_truthy_def
        selectAndActivateZone_select roon_env_fields)
qed

lemma inj_roon_env: "inj (objectPath roon_env)"
  by (simp add: roon_env_fields inj_def)

text \<open>
  Claim C2, as the code has it. While a zone is active, a change set whose
  \<^verbatim>\<open>zones_removed\<close> contains the active id resets the selection and the projection to
  idle, and they stay idle through the change set's additions, changes and seek updates.
  Then selection is run again. If the registry is empty at the end of the event, the
  projection is the idle one (title \<^verbatim>\<open>Roon\<close>, placeholder artist and album,
  \<^verbatim>\<open>Stopped\<close>, the idle default track id) and the selection is \<^verbatim>\<open>null\<close>; otherwise a
  zone of the registry is active and its track id is projected. The idle default track id
  differs from every zone-derived track id, the object-path builder being injective.
\<close>

theorem active_zone_removed:
  fixes E :: env and now :: int
  assumes active: "activeZoneId st = Some a"
    and removed: "zones_removed cs = Some rs" and mem: "a \<in> set rs"
  defines "st' \<equiv> onZonesChanged E now cs st"
  shows
    "idle E (applyChanges E now cs st)
     \<and> (zones st' = [] \<longrightarrow>
          activeZoneId st' = None \<and> activeZone st' = None
          \<and> player st' = idle_player E (transport st \<noteq> None)
          \<and> xesam_title (metadata (player st')) = ''Roon''
          \<and> xesam_artist (metadata (player st')) = [em_dash]
          \<and> xesam_album (metadata (player st')) = em_dash
          \<and> playbackStatus (player st') = ''Stopped''
          \<and> mpris_trackid (metadata (player st')) = objectPath E DEFAULT_TRACK_ID_SUFFIX)
     \<and> (zones st' \<noteq> [] \<longrightarrow>
          (\<exists>z \<in> set (obj_values (zones st')).
              activeZone st' = Some z \<and> activeZoneId st' = Some (zone_id z)
              \<and> mpris_trackid (metadata (player st')) = objectPath E (''zone/'' @ zone_id z)))
     \<and> (inj (objectPath E) \<longrightarrow>
          (\<forall>zid. objectPath E DEFAULT_TRACK_ID_SUFFIX \<noteq> objectPath E (''zone/'' @ zid)))"
proof -
  let ?s = "applyChanges E now cs st"
  have idle: "idle E ?s"
    using assms(1-3) by (rule applyChanges_idle)
  then have none: "activeZoneId ?s = None"
    by (simp add: idle_def)
  then have st': "st' = activateZone E now (select (ZONE_PREFERENCE E) (zones ?s) None) ?s"
    by (simp add: st'_def onZonesChanged_def id_truthy_def selectAndActivateZone_select)
  then have zs: "zones st' = zones ?s"
    by (simp add: activateZone_fields)
  have empty: ?thesis if "zones ?s = []"
  proof -
    from that have "select (ZONE_PREFERENCE E) (zones ?s) None = None"
      by (simp add: select_None)
    with st' have "st' = activateZone E now None ?s"
      by simp
    then show ?thesis
      using idle that zs
      apply (simp add: activateZone_fields activateZone_None_player applyChanges_transport)
      apply (simp add: idle_player_def idle_metadata_def)
      apply (auto simp: inj_def DEFAULT_TRACK_ID_SUFFIX_def)
      done
  qed
  have nonempty: ?thesis if "zones ?s \<noteq> []"
  proof -
    from that obtain z where z: "select (ZONE_PREFERENCE E) (zones ?s) None = Some z"
      using select_None [of "ZONE_PREFERENCE E" "zones ?s" None] by auto
    then have "z \<in> set (obj_values (zones ?s))"
      by (rule select_in_registry)
    moreover from z st' have "st' = activateZone E now (Some z) ?s"
      by simp
    ultimately show ?thesis
      using idle that zs
      apply (simp add: activateZone_fields activateZone_Some_trackid)
      apply (simp add: zone_metadata_def)
      apply (auto simp: inj_def DEFAULT_TRACK_ID_SUFFIX_def)
      done
  qed
  from empty nonempty show ?thesis
    by blast
qed

text \<open>
  The claim as stated fails where the registry keeps another zone: with \<^verbatim>\<open>z1\<close> active
  and \<^verbatim>\<open>z2\<close> known, removing \<^verbatim>\<open>z1\<close> ends the event with \<^verbatim>\<open>z2\<close> active and projected.
\<close>

theorem removed_zone_reselects:
  "activeZoneId two_zone_state = Some ''z1''
   \<and> zones_removed z1_removed = Some [''z1'']
   \<and> activeZoneId (onZonesChanged roon_env 9000 z1_removed two_zone_state) = Some ''z2''
   \<and> activeZone (onZonesChanged roon_env 9000 z1_removed two_zone_state) = Some zone_z2
   \<and> xesam_title (metadata (player (onZonesChanged roon_env 9000 z1_removed two_zone_state)))
       = ''kitchen''
   \<and> playbackStatus (player (onZonesChanged roon_env 9000 z1_removed two_zone_state))
       = ''Paused''
   \<and> mpris_trackid (metadata (player (onZonesChanged roon_env 9000 z1_removed two_zone_state)))
       = ''/org/node/mediaplayer/roon/zone/z2''"
proof -
  have "zone_id zone_z2 = ''z2''" and "mapPlaybackStatus (state zone_z2) = ''Paused''"
    by (simp_all add: zone_z2_def bare_zone_def mapPlaybackStatus_def lower_Kitchen
         toLowerCase_def lower_char_def)
  moreover have "xesam_title (zone_metadata roon_env zone_z2) = ''kitchen''
      \<and> mpris_trackid (zone_metadata roon_env zone_z2) = ''/org/node/mediaplayer/roon/zone/z2''"
    by (simp add: zone_metadata_def zone_z2_def bare_zone_def np_of_def empty_now_playing_def
        extractLine_def extractText_def line_val_def or_else_def roon_env_fields)
  moreover have "zones_removed z1_removed = Some [''z1'']"
    by (simp add: z1_removed_def)
  ultimately show ?thesis
    by (simp add: z1_removed_two_zones activateZone_fields activateZone_Some_trackid
        activateZone_Some_status two_zone_state_fields)
qed

text \<open>
  Removing the only zone ends idle; removing one of two ends with the other active.
\<close>

theorem active_zone_removed_witness:
  "activeZoneId playing_state = Some ''z1''
   \<and> zones_removed z1_removed = Some [''z1'']
   \<and> zones (onZonesChanged roon_env 9000 z1_removed playing_state) = []
   \<and> activeZoneId (onZonesChanged roon_env 9000 z1_removed playing_state) = None
   \<and> player (onZonesChanged roon_env 9000 z1_removed playing_state) = idle_player roon_env True
   \<and> zones (onZonesChanged roon_env 9000 z1_removed two_zone_state) = [(''z2'', zone_z2)]
   \<and> activeZone (onZonesChanged roon_env 9000 z1_removed two_zone_state) = Some zone_z2
   \<and> inj (objectPath roon_env)
   \<and> objectPath roon_env DEFAULT_TRACK_ID_SUFFIX \<noteq> objectPath roon_env (''zone/'' @ ''z1'')"
proof -
  have a: "activeZoneId playing_state = Some ''z1''"
    and r: "zones_removed z1_removed = Some [''z1'']" and m: "''z1'' \<in> set [''z1'']"
    and a2: "activeZoneId two_zone_state = Some ''z1''"
    by (simp_all add: playing_state_anchor two_zone_state_fields z1_removed_def)
  have zs: "zones (onZonesChanged roon_env 9000 z1_removed playing_state) = []"
    by (simp add: onZonesChanged_def applyChanges_def each_def z1_removed_def removeZone_def
        playing_state_anchor activateZone_fields selectAndActivateZone_def obj_values_def
        obj_delete_def id_truthy_def)
  have zs2: "zones (onZonesChanged roon_env 9000 z1_removed two_zone_state) = [(''z2'', zone_z2)]"
    by (simp add: z1_removed_two_zones activateZone_fields)
  note t1 = active_zone_removed [OF a r m, of roon_env 9000]
  note t2 = active_zone_removed [OF a2 r m, of roon_env 9000]
  from t1 zs have "activeZoneId (onZonesChanged roon_env 9000 z1_removed playing_state) = None
     \<and> player (onZonesChanged roon_env 9000 z1_removed playing_state) = idle_player roon_env True"
    by (simp add: playing_state_anchor)
  moreover from t2 zs2
  have "activeZone (onZonesChanged roon_env 9000 z1_removed two_zone_state) = Some zone_z2"
    by (simp add: obj_values_def)
  moreover from t1 inj_roon_env
  have "objectPath roon_env DEFAULT_TRACK_ID_SUFFIX \<noteq> objectPath roon_env (''zone/'' @ ''z1'')"
    by blast
  ultimately show ?thesis
    using a r zs zs2 inj_roon_env by simp
qed

section \<open>Reachable states and the transport handle\<close>



lemma run_art_jobs_none: "art_jobs s = [] \<Longrightarrow> run_art_jobs s = s"
  by (simp add: run_art_jobs_def)









lemma paired_state_fields:
  "transport paired_state = Some core0"
  "activeZone paired_state = None"
  "activeZoneId paired_state = None"
  "zones paired_state = []"
  "art_jobs paired_state = []"
  "transport_calls paired_state = []"
  "canControl (player paired_state) = False"
  "mpris_trackid (metadata (player paired_state)) = ''/org/node/mediaplayer/roon/track/0''"
  "status paired_state = (''Connected to Core'', False)"
  by (simp_all add: paired_state_def onCorePaired_def initial_def setStatus_def core0_def
      idle_metadata_def roon_env_fields DEFAULT_TRACK_ID_SUFFIX_def)

lemma playing_state_more:
  "art_jobs playing_state = []"
  "mpris_trackid (metadata (player playing_state)) = ''/org/node/mediaplayer/roon/zone/z1''"
  by (simp_all add: playing_state_def paired_state_def zone_z1_def zone_metadata_def eval_defs)

lemma unpaired_state_fields:
  "transport unpaired_state = None"
  "zones unpaired_state = []"
  "activeZone unpaired_state = None"
  "activeZoneId unpaired_state = None"
  "art_jobs unpaired_state = []"
  by (simp_all add: unpaired_state_def onCoreUnpaired_def setStatus_def activateZone_fields
      playing_state_more)
     (simp add: activateZone_def setStatus_def playing_state_more Let_def split: option.splits)

lemma reachable_paired: "reachable roon_env paired_state"
proof (rule reachable.step [where ev = "CorePaired core0" and now = 0])
  show "reachable roon_env (initial roon_env 0)"
    by (rule reachable.start)
  show "enabled (CorePaired core0) (initial roon_env 0)"
    by simp
  show "deliver roon_env 0 (CorePaired core0) (initial roon_env 0) = Inr paired_state"
    using paired_state_fields(5)
    by (simp add: deliver_def run_art_jobs_none paired_state_def)
qed

lemma reachable_playing: "reachable roon_env playing_state"
proof (rule reachable.step [where ev = "Subscription (Subscribed (Some [zone_z1]))" and now = 5000])
  show "reachable roon_env paired_state"
    by (rule reachable_paired)
  show "enabled (Subscription (Subscribed (Some [zone_z1]))) paired_state"
    by (simp add: paired_state_fields)
  show "deliver roon_env 5000 (Subscription (Subscribed (Some [zone_z1]))) paired_state
          = Inr playing_state"
    using playing_state_more(1)
    by (simp add: deliver_def run_art_jobs_none playing_state_def)
qed

lemma reachable_unpaired: "reachable roon_env unpaired_state"
proof (rule reachable.step [where ev = "CoreUnpaired core0" and now = 9500])
  show "reachable roon_env playing_state"
    by (rule reachable_playing)
  show "enabled (CoreUnpaired core0) playing_state"
    by simp
  show "deliver roon_env 9500 (CoreUnpaired core0) playing_state = Inr unpaired_state"
    using unpaired_state_fields(5)
    by (simp add: deliver_def run_art_jobs_none unpaired_state_def)
qed



section \<open>A snapshot after the core is lost\<close>

lemma reachable_attainable: "reachable E s \<Longrightarrow> attainable E s"
  by (induction rule: reachable.induct) (auto intro: attainable.intros)

lemma unpaired_state_calls: "transport_calls unpaired_state = []"
  by (simp add: unpaired_state_def onCoreUnpaired_def setStatus_def activateZone_fields
      playing_state_anchor)

lemma late_state_activation:
  "late_state =
     activateZone roon_env 9700 (Some zone_z1) (unpaired_state\<lparr>zones := [(''z1'', zone_z1)]\<rparr>)"
  by (simp add: late_state_def onSubscription_def onZonesSubscribed_def
      selectAndActivateZone_def pickPreferredZone_def matchesZonePreference_def
      id_truthy_def obj_values_def obj_set_def obj_get_def isArrayIndex_def is_digit_def
      roon_env_fields unpaired_state_fields zone_z1_def bare_zone_def)

lemma late_state_fields:
  "transport late_state = None"
  "zones late_state = [(''z1'', zone_z1)]"
  "activeZone late_state = Some zone_z1"
  "transport_calls late_state = []"
  by (simp_all add: late_state_activation activateZone_fields unpaired_state_fields
      unpaired_state_calls)

lemma late_state_jobs: "art_jobs late_state = []"
  by (simp add: late_state_activation activateZone_def updateFromActiveZone_def
      updateSeekState_def updatePlaybackState_def updateMetadata_def updateCapabilities_def
      setStatus_def np_of_def zone_z1_def bare_zone_def empty_now_playing_def
      unpaired_state_fields Let_def split: option.splits)

text \<open>
  Claim C9. The claim is that in every state the module can come to a \<^verbatim>\<open>null\<close> transport
  handle means an empty registry and no active zone, so that the relative-seek and
  set-position handlers never call \<^verbatim>\<open>seek\<close> on a \<^verbatim>\<open>null\<close> transport. It fails: the
  core is paired, the subscription delivers the playing zone \<^verbatim>\<open>z1\<close>, the core is
  unpaired, and the subscription, which \<^verbatim>\<open>onCoreUnpaired\<close> has not cancelled, delivers
  the snapshot once more. The module comes to a state with a \<^verbatim>\<open>null\<close> handle, \<^verbatim>\<open>z1\<close> in
  the registry and \<^verbatim>\<open>z1\<close> active. There a relative seek and a set-position request both
  throw a \<^verbatim>\<open>TypeError\<close>, while \<^verbatim>\<open>sendTransportCommand\<close>, which tests the handle, does
  nothing.
\<close>

theorem late_snapshot_null_transport:
  "reachable roon_env unpaired_state
   \<and> deliver roon_env 9700 (Subscription (Subscribed (Some [zone_z1]))) unpaired_state
       = Inr late_state
   \<and> attainable roon_env late_state
   \<and> transport late_state = None
   \<and> zones late_state = [(''z1'', zone_z1)]
   \<and> activeZone late_state = Some zone_z1
   \<and> on_seek roon_env 9800 5000000 late_state = Inl TypeError
   \<and> on_position roon_env 9800 no_track_event late_state = Inl TypeError
   \<and> sendTransportCommand roon_env 9800 Play late_state = late_state"
proof -
  have d: "deliver roon_env 9700 (Subscription (Subscribed (Some [zone_z1]))) unpaired_state
             = Inr late_state"
    by (simp add: deliver_def late_state_def [symmetric] run_art_jobs_none late_state_jobs)
  have "attainable roon_env unpaired_state"
    using reachable_unpaired by (rule reachable_attainable)
  then have a: "attainable roon_env late_state"
    using d by (rule attainable.at_step)
  have e: "ensureActiveZone roon_env 9800 late_state = late_state"
    by (simp add: ensureActiveZone_def late_state_fields)
  have "on_seek roon_env 9800 5000000 late_state = Inl TypeError"
    by (simp add: on_seek_def e late_state_fields)
  moreover have "on_position roon_env 9800 no_track_event late_state = Inl TypeError"
    by (simp add: on_position_def e late_state_fields no_track_event_def id_truthy_def)
  moreover have "sendTransportCommand roon_env 9800 Play late_state = late_state"
    by (simp add: sendTransportCommand_def e late_state_fields)
  ultimately show ?thesis
    using reachable_unpaired d a by (simp add: late_state_fields)
qed

section \<open>Rounding to a double\<close>

lemma round_even_int [simp]: "round_even (of_int n) = n"
  by (simp add: round_even_def)

lemma round_even_range: "\<lfloor>a\<rfloor> \<le> round_even a \<and> round_even a \<le> \<lfloor>a\<rfloor> + 1"
  by (simp add: round_even_def)

lemma round_even_mono: "a \<le> b \<Longrightarrow> round_even a \<le> round_even b"
proof -
  assume ab: "a \<le> b"
  then have fl: "\<lfloor>a\<rfloor> \<le> \<lfloor>b\<rfloor>" by (rule floor_mono)
  show ?thesis
  proof (cases "\<lfloor>a\<rfloor> = \<lfloor>b\<rfloor>")
    case True
    with ab show ?thesis
      by (auto simp: round_even_def)
  next
    case False
    with fl have "\<lfloor>a\<rfloor> + 1 \<le> \<lfloor>b\<rfloor>" by simp
    with round_even_range [of a] round_even_range [of b] show ?thesis by linarith
  qed
qed

lemma quantum_pos [simp]: "0 < quantum x"
  by (simp add: quantum_def)

lemma quantum_nonneg [simp]: "0 \<le> quantum x"
  by (simp add: quantum_def)

lemma quantum_scale:
  "2 powr 53 * quantum x = 2 powr (of_int (exponent x) + 1)"
  "2 powr 52 * quantum x = 2 powr of_int (exponent x)"
  unfolding quantum_def powr_add [symmetric] by (simp_all add: add.commute)

lemma quantum_abs [simp]: "quantum (- x) = quantum x" "quantum \<bar>x\<bar> = quantum x"
  by (simp_all add: quantum_def exponent_def)

lemma rnd_zero [simp]: "rnd 0 = 0"
  by (simp add: rnd_def)

lemma rnd_minus: "rnd (- x) = - rnd x"
  by (simp add: rnd_def sgn_minus)

lemma round_even_nonneg: "0 \<le> a \<Longrightarrow> 0 \<le> round_even a"
  using round_even_mono [of 0 a] round_even_int [of 0] by simp

lemma rnd_nonneg: "0 \<le> x \<Longrightarrow> 0 \<le> rnd x"
  by (simp add: rnd_def sgn_if round_even_nonneg less_imp_le)

lemma rnd_pos_eq: "0 < x \<Longrightarrow> rnd x = of_int (round_even (x / quantum x)) * quantum x"
  by (simp add: rnd_def)

lemma exponent_mono: "0 < x \<Longrightarrow> x \<le> y \<Longrightarrow> exponent x \<le> exponent y"
  unfolding exponent_def
  by (intro max.mono floor_mono) (auto simp: log_le_cancel_iff)

lemma below_next_power:
  assumes "0 < x" shows "x < 2 powr (of_int (exponent x) + 1)"
proof -
  have "log 2 x < of_int \<lfloor>log 2 x\<rfloor> + 1" by linarith
  also have "\<dots> \<le> of_int (exponent x) + 1"
    using assms by (simp add: exponent_def)
  finally show ?thesis
    using assms by (simp add: log_less_iff)
qed

lemma above_power:
  assumes "0 < x" and "- 1022 < exponent x" shows "2 powr of_int (exponent x) \<le> x"
proof -
  from assms have "exponent x = \<lfloor>log 2 x\<rfloor>"
    by (simp add: exponent_def max_def split: if_splits)
  then have "of_int (exponent x) \<le> log 2 x" by simp
  then show ?thesis
    using assms by (simp add: le_log_iff)
qed

lemma two_powr_53: "2 powr 53 = real_of_int (2 ^ 53)" "2 powr 52 = real_of_int (2 ^ 52)"
  by simp_all

lemma rnd_le_next_power:
  assumes "0 < x" shows "rnd x \<le> 2 powr (of_int (exponent x) + 1)"
proof -
  have "x / quantum x < 2 powr (of_int (exponent x) + 1) / quantum x"
    using below_next_power [OF assms] by (intro divide_strict_right_mono) simp_all
  also have "\<dots> = 2 powr 53"
    by (simp add: quantum_def powr_diff [symmetric])
  finally have "x / quantum x \<le> real_of_int (2 ^ 53)"
    by simp
  then have "round_even (x / quantum x) \<le> 2 ^ 53"
    using round_even_mono [of "x / quantum x" "real_of_int (2 ^ 53)"] round_even_int [of "2 ^ 53"] by simp
  then have "real_of_int (round_even (x / quantum x)) * quantum x \<le> real_of_int (2 ^ 53) * quantum x"
    by (intro mult_right_mono) (simp_all add: less_imp_le)
  also have "real_of_int (2 ^ 53) * quantum x = 2 powr (of_int (exponent x) + 1)"
    unfolding two_powr_53 [symmetric] by (rule quantum_scale)
  finally show ?thesis
    using assms by (simp add: rnd_pos_eq)
qed

lemma rnd_ge_power:
  assumes "0 < x" and "- 1022 < exponent x" shows "2 powr of_int (exponent x) \<le> rnd x"
proof -
  have "2 powr 52 = 2 powr of_int (exponent x) / quantum x"
    by (simp add: quantum_def powr_diff [symmetric])
  also have "\<dots> \<le> x / quantum x"
    using above_power [OF assms] by (intro divide_right_mono) simp_all
  finally have "real_of_int (2 ^ 52) \<le> x / quantum x"
    by simp
  then have "2 ^ 52 \<le> round_even (x / quantum x)"
    using round_even_mono [of "real_of_int (2 ^ 52)" "x / quantum x"] round_even_int [of "2 ^ 52"] by simp
  then have "real_of_int (2 ^ 52) * quantum x \<le> real_of_int (round_even (x / quantum x)) * quantum x"
    by (intro mult_right_mono) (simp_all add: less_imp_le)
  moreover have "real_of_int (2 ^ 52) * quantum x = 2 powr of_int (exponent x)"
    unfolding two_powr_53 [symmetric] by (rule quantum_scale)
  ultimately have "2 powr of_int (exponent x) \<le> real_of_int (round_even (x / quantum x)) * quantum x"
    by (simp only:)
  then show ?thesis
    using assms by (simp add: rnd_pos_eq)
qed

lemma rnd_mono_pos:
  assumes "0 < x" and "x \<le> y" shows "rnd x \<le> rnd y"
proof -
  from assms have y: "0 < y" by simp
  have le: "exponent x \<le> exponent y"
    using assms by (rule exponent_mono)
  show ?thesis
  proof (cases "exponent x = exponent y")
    case True
    then have q: "quantum x = quantum y" by (simp add: quantum_def)
    have "x / quantum y \<le> y / quantum y"
      using assms by (intro divide_right_mono) simp_all
    then have "round_even (x / quantum y) \<le> round_even (y / quantum y)"
      by (rule round_even_mono)
    then show ?thesis
      using assms y by (simp add: rnd_pos_eq q)
  next
    case False
    with le have lt: "exponent x + 1 \<le> exponent y" by simp
    have "- 1022 \<le> exponent x" by (simp add: exponent_def)
    with lt have big: "- 1022 < exponent y" by simp
    have "rnd x \<le> 2 powr (of_int (exponent x) + 1)"
      using assms(1) by (rule rnd_le_next_power)
    also have "\<dots> \<le> 2 powr of_int (exponent y)"
      using lt by (simp del: of_int_add add: of_int_add [symmetric])
    also have "\<dots> \<le> rnd y"
      using y big by (rule rnd_ge_power)
    finally show ?thesis .
  qed
qed

lemma rnd_mono: "x \<le> y \<Longrightarrow> rnd x \<le> rnd y"
proof -
  assume xy: "x \<le> y"
  consider "0 < x" | "x \<le> 0" "0 \<le> y" | "y < 0" by linarith
  then show ?thesis
  proof cases
    case 1
    with xy show ?thesis by (simp add: rnd_mono_pos)
  next
    case 2
    then have "rnd x \<le> 0" "0 \<le> rnd y"
      using rnd_nonneg [of "- x"] rnd_nonneg [of y] by (simp_all add: rnd_minus)
    then show ?thesis by simp
  next
    case 3
    with xy have "rnd (- y) \<le> rnd (- x)"
      by (intro rnd_mono_pos) simp_all
    then show ?thesis by (simp add: rnd_minus)
  qed
qed

lemma round_even_eqI:
  assumes "real_of_int n - 1 / 2 < a" and "a < real_of_int n + 1 / 2"
  shows "round_even a = n"
proof (cases "real_of_int n \<le> a")
  case True
  with assms have "\<lfloor>a\<rfloor> = n" by (intro floor_unique) simp_all
  with assms show ?thesis by (simp add: round_even_def)
next
  case False
  with assms have "\<lfloor>a\<rfloor> = n - 1" by (intro floor_unique) simp_all
  with assms False show ?thesis by (simp add: round_even_def)
qed

lemma round_even_tie:
  assumes "a = real_of_int n + 1 / 2"
  shows "round_even a = (if even n then n else n + 1)"
proof -
  from assms have "\<lfloor>a\<rfloor> = n" by (intro floor_unique) simp_all
  with assms show ?thesis by (simp add: round_even_def)
qed

lemma exponent_eqI:
  assumes "0 < x" and "2 powr of_int e \<le> x" and "x < 2 powr (of_int e + 1)" and "- 1022 \<le> e"
  shows "exponent x = e"
proof -
  from assms have "\<lfloor>log 2 x\<rfloor> = e"
    by (simp add: floor_log_eq_powr_iff)
  with assms show ?thesis by (simp add: exponent_def)
qed

lemma rnd_at:
  assumes q: "q = 2 powr (of_int e - 52)" and e: "- 1022 \<le> e"
    and lo: "2 ^ 52 * q \<le> x" and hi: "x < 2 ^ 53 * q"
    and n: "round_even (x / q) = n"
  shows "rnd x = of_int n * q"
proof -
  have qpos: "0 < q" by (simp add: q)
  then have "0 < 2 ^ 52 * q" by simp
  with lo have x: "0 < x" by simp
  have "2 ^ 52 * q = 2 powr 52 * q" "2 ^ 53 * q = 2 powr 53 * q"
    by simp_all
  then have "2 ^ 52 * q = 2 powr of_int e" "2 ^ 53 * q = 2 powr (of_int e + 1)"
    unfolding q powr_add [symmetric] by (simp_all add: add.commute)
  with lo hi have "exponent x = e"
    by (intro exponent_eqI x e) simp_all
  then have "quantum x = q" by (simp add: quantum_def q)
  with x n show ?thesis by (simp add: rnd_pos_eq)
qed

lemma rnd_int_pos:
  assumes "0 < n" and "n < 2 ^ 53"
  shows "rnd (of_int n) = of_int n"
proof -
  have "real_of_int n < 2 powr 53"
    using assms by (simp add: of_int_less_numeral_power_cancel_iff)
  then have "log 2 (real_of_int n) < 53"
    using assms by (simp add: log_less_iff)
  then have "\<lfloor>log 2 (real_of_int n)\<rfloor> \<le> 52" by linarith
  moreover have "\<bar>real_of_int n\<bar> = real_of_int n" using assms by simp
  ultimately have e: "exponent (real_of_int n) \<le> 52" by (simp add: exponent_def)
  define k where "k = nat (52 - exponent (real_of_int n))"
  have "quantum (real_of_int n) = 2 powr - real k"
    using e by (simp add: quantum_def k_def)
  also have "\<dots> = 1 / 2 ^ k"
    by (simp add: powr_minus powr_realpow inverse_eq_divide)
  finally have q: "quantum (real_of_int n) = 1 / 2 ^ k" .
  have "real_of_int n / quantum (real_of_int n) = real_of_int (n * 2 ^ k)"
    by (simp add: q)
  then have "round_even (real_of_int n / quantum (real_of_int n)) = n * 2 ^ k"
    by (simp only: round_even_int)
  with assms show ?thesis
    by (simp add: rnd_pos_eq) (simp add: q)
qed

lemma rnd_int: "\<bar>n\<bar> < 2 ^ 53 \<Longrightarrow> rnd (of_int n) = of_int n"
  using rnd_int_pos [of n] rnd_int_pos [of "- n"] rnd_minus [of "of_int n"]
  by (cases "n = 0"; cases "0 < n") simp_all

lemma double_le_simps [simp]:
  "NegInf \<le> y" "y \<le> PosInf"
  "(Dbl a \<le> Dbl b) = (a \<le> b)"
  "(Dbl a \<le> NegInf) = False" "(PosInf \<le> Dbl b) = False" "(PosInf \<le> NegInf) = False"
  by (cases y; simp add: less_eq_double_def)+

lemma fl_mono: "x \<le> y \<Longrightarrow> fl x \<le> fl y"
  using rnd_mono [of x y] by (simp add: fl_def)

lemma fl_int: "\<bar>n\<bar> < 2 ^ 53 \<Longrightarrow> fl (of_int n) = Dbl (of_int n)"
proof -
  assume n: "\<bar>n\<bar> < 2 ^ 53"
  have "(2::int) ^ 53 < 2 ^ 1024" by simp
  with n have "\<bar>n\<bar> < 2 ^ 1024" by (rule less_trans)
  then have "real_of_int n < 2 ^ 1024" "- (2 ^ 1024) < real_of_int n"
    by (simp_all add: abs_less_iff of_int_less_numeral_power_cancel_iff
        neg_numeral_power_less_of_int_cancel_iff)
  with n show ?thesis by (simp add: fl_def rnd_int)
qed

lemma dsub_mono: "a \<le> a' \<Longrightarrow> dsub a b \<le> dsub a' b"
  by (simp add: dsub_def fl_mono)

lemma ddiv_mono: "0 < c \<Longrightarrow> a \<le> b \<Longrightarrow> ddiv a c \<le> ddiv b c"
  by (cases a; cases b) (simp_all add: fl_mono divide_right_mono)

lemma dmul_mono: "0 < c \<Longrightarrow> a \<le> b \<Longrightarrow> dmul a c \<le> dmul b c"
  by (cases a; cases b) (simp_all add: fl_mono mult_right_mono)

lemma dadd_mono: "a \<le> b \<Longrightarrow> dadd x a \<le> dadd x b"
  by (cases a; cases b) (simp_all add: fl_mono)

lemma dfloor_mono: "a \<le> b \<Longrightarrow> dfloor a \<le> dfloor b"
  by (cases a; cases b) (simp_all add: floor_mono)

lemma dfloor_le: "dfloor a \<le> a"
  by (cases a) simp_all

lemma dfloor_integral: "dfloor a = PosInf \<or> dfloor a = NegInf \<or> (\<exists>n. dfloor a = Dbl (of_int n))"
  by (cases a) simp_all

lemma fl_zero [simp]: "fl 0 = Dbl 0"
  by (simp add: fl_def)

lemma fl_numeral:
  "(numeral k :: int) < 2 ^ 53 \<Longrightarrow> fl (numeral k) = Dbl (numeral k)"
  "(numeral k :: int) < 2 ^ 53 \<Longrightarrow> fl (- numeral k) = Dbl (- numeral k)"
  using fl_int [of "numeral k"] fl_int [of "- numeral k"] by simp_all

lemma fl_one [simp]: "fl 1 = Dbl 1"
  using fl_int [of 1] by simp

lemma fl_at:
  assumes q: "q = 2 powr (of_int e - 52)" and e: "- 1022 \<le> e"
    and lo: "2 ^ 52 * q \<le> x" and hi: "x < 2 ^ 53 * q"
    and n: "round_even (x / q) = n"
    and fin: "of_int n * q < 2 ^ 1024"
  shows "fl x = Dbl (of_int n * q)"
proof -
  have r: "rnd x = of_int n * q"
    using q e lo hi n by (rule rnd_at)
  have "0 < q" by (simp add: q)
  then have "0 < 2 ^ 52 * q" by simp
  with lo have "0 \<le> x" by simp
  then have "0 \<le> rnd x" by (rule rnd_nonneg)
  with fin show ?thesis
    by (simp add: fl_def r)
qed

section \<open>The position estimate\<close>

lemma anchor_reset_activateZone: "anchor_reset (activateZone E now zo s)"
  by (cases zo) (simp_all add: anchor_reset_def activateZone_fields activateZone_None_player)

lemma anchor_reset_steps:
  assumes "anchor_reset s"
  shows "anchor_reset (removeZone E now s x)"
    and "anchor_reset (addZone s z)"
    and "anchor_reset (changeZone E now s z)"
    and "anchor_reset (applySeekUpdate now s su)"
proof -
  show "anchor_reset (removeZone E now s x)"
    using assms by (auto simp: removeZone_def anchor_reset_activateZone) (simp add: anchor_reset_def)
  show "anchor_reset (addZone s z)"
    using assms by (simp add: addZone_def anchor_reset_def)
  show "anchor_reset (changeZone E now s z)"
    using assms by (auto simp: changeZone_def anchor_reset_activateZone) (simp add: anchor_reset_def)
  show "anchor_reset (applySeekUpdate now s su)"
    using assms
    by (auto simp: applySeekUpdate_def anchor_reset_def updateSeekState_def split: option.splits)
qed

lemma anchor_reset_select: "anchor_reset (selectAndActivateZone E now s)"
  by (simp add: selectAndActivateZone_def anchor_reset_activateZone split: list.splits option.splits)

lemma anchor_reset_ensure: "anchor_reset s \<Longrightarrow> anchor_reset (ensureActiveZone E now s)"
  by (simp add: ensureActiveZone_def anchor_reset_select)

lemma anchor_reset_calls: "anchor_reset s \<Longrightarrow> anchor_reset (s\<lparr>transport_calls := cs\<rparr>)"
  by (simp add: anchor_reset_def)

lemma anchor_reset_status: "anchor_reset s \<Longrightarrow> anchor_reset (setStatus m e s)"
  by (simp add: anchor_reset_def setStatus_def)

lemma anchor_reset_subscription:
  assumes "anchor_reset s"
  shows "anchor_reset (onSubscription E now msg s)"
proof (cases msg)
  case (Subscribed zs)
  then show ?thesis
    by (simp add: onSubscription_def onZonesSubscribed_def anchor_reset_select)
next
  case (Changed cs)
  have "anchor_reset (applyChanges E now cs s)"
    by (rule applyChanges_preserves [where P = anchor_reset, OF assms])
       (rule anchor_reset_steps; assumption)+
  with Changed show ?thesis
    by (simp add: onSubscription_def onZonesChanged_def anchor_reset_select)
next
  case Unsubscribed
  then show ?thesis
    by (simp add: onSubscription_def anchor_reset_activateZone)
next
  case (OtherMessage c)
  with assms show ?thesis
    by (simp add: onSubscription_def)
qed

lemma anchor_reset_applyArtUrl: "anchor_reset s \<Longrightarrow> anchor_reset (applyArtUrl u s)"
  by (simp add: anchor_reset_def applyArtUrl_def)

lemma anchor_reset_art:
  assumes "anchor_reset s"
  shows "anchor_reset (get_image_callback E k res s)"
    and "anchor_reset (writeFile_callback E k p werr s)"
    and "anchor_reset (run_art_jobs s)"
proof -
  show "anchor_reset (get_image_callback E k res s)"
    using assms by (simp add: anchor_reset_def get_image_callback_def split: image_result.splits)
  have "anchor_reset (s\<lparr>pending_writes := pw, files := fs, keyToFilePath := km\<rparr>)" for pw fs km
    using assms by (simp add: anchor_reset_def)
  moreover have "anchor_reset (s\<lparr>pending_writes := pw\<rparr>)" for pw
    using assms by (simp add: anchor_reset_def)
  ultimately show "anchor_reset (writeFile_callback E k p werr s)"
    using assms by (simp add: writeFile_callback_def Let_def anchor_reset_applyArtUrl)
  have "anchor_reset (foldl (\<lambda>s url. applyArtUrl url s) s us)" for us
    using assms by (rule foldl_preserves) (rule anchor_reset_applyArtUrl)
  then show "anchor_reset (run_art_jobs s)"
    by (simp add: run_art_jobs_def anchor_reset_def)
qed

lemma handle_keeps_anchor_reset:
  assumes "anchor_reset s" and "handle E now ev s = Inr s'"
  shows "anchor_reset s'"
proof (cases ev)
  case (CorePaired c)
  with assms show ?thesis
    by (auto simp: onCorePaired_def setStatus_def anchor_reset_def)
next
  case (CoreUnpaired c)
  with assms show ?thesis
    by (auto simp: onCoreUnpaired_def intro!: anchor_reset_status anchor_reset_activateZone)
next
  case (Subscription msg)
  with assms show ?thesis
    by (auto simp: anchor_reset_subscription)
next
  case (Command c)
  with assms anchor_reset_ensure [OF assms(1), of E now] show ?thesis
    by (auto simp: sendTransportCommand_def anchor_reset_calls split: option.splits)
next
  case (SeekRequest offset)
  with assms anchor_reset_ensure [OF assms(1), of E now] show ?thesis
    by (auto simp: on_seek_def anchor_reset_calls split: option.splits)
next
  case (SetPosition event)
  with assms anchor_reset_ensure [OF assms(1), of E now] show ?thesis
    by (auto simp: on_position_def anchor_reset_calls split: option.splits if_splits)
next
  case Raise
  with assms show ?thesis by auto
next
  case (GetImageDone k res)
  with assms show ?thesis by (auto simp: anchor_reset_art)
next
  case (WriteFileDone k p werr)
  with assms show ?thesis by (auto simp: anchor_reset_art)
qed

lemma reachable_anchor_reset: "reachable E s \<Longrightarrow> anchor_reset s"
proof (induction rule: reachable.induct)
  case (start t0)
  show ?case by (simp add: initial_def anchor_reset_def)
next
  case (step st ev now st')
  from step.hyps(3) obtain s1 where h: "handle E now ev st = Inr s1" and s': "st' = run_art_jobs s1"
    by (auto simp: deliver_def split: sum.splits)
  from handle_keeps_anchor_reset [OF step.IH h] show ?case
    unfolding s' by (rule anchor_reset_art)
qed

lemma attainable_anchor_reset: "attainable E s \<Longrightarrow> anchor_reset s"
proof (induction rule: attainable.induct)
  case (at_start t0)
  show ?case by (simp add: initial_def anchor_reset_def)
next
  case (at_step st now ev st')
  then obtain s1 where h: "handle E now ev st = Inr s1" and s': "st' = run_art_jobs s1"
    by (auto simp: deliver_def split: sum.splits)
  from handle_keeps_anchor_reset [OF at_step.IH h] show ?case
    unfolding s' by (rule anchor_reset_art)
qed

lemma micros_zero: "micros (Dbl 0) = Dbl 0"
  by (simp add: micros_def)

lemma getPosition_formula:
  assumes "anchor_reset st"
  shows "getPosition now st = micros (upper_clamp (activeLengthSeconds st) (elapsed now st))"
proof (cases "activeZone st")
  case None
  with assms show ?thesis
    by (simp add: getPosition_def anchor_reset_def upper_clamp_def elapsed_def micros_zero)
next
  case (Some z)
  then show ?thesis
    by (simp add: getPosition_def upper_clamp_def elapsed_def micros_def Let_def
        split: option.splits)
qed

lemma elapsed_mono: "now \<le> now' \<Longrightarrow> elapsed now st \<le> elapsed now' st"
  by (simp add: elapsed_def dadd_mono ddiv_mono dsub_mono)

lemma upper_clamp_mono: "a \<le> b \<Longrightarrow> upper_clamp len a \<le> upper_clamp len b"
  by (cases len) (simp_all add: upper_clamp_def min.coboundedI1)

lemma micros_mono: "a \<le> b \<Longrightarrow> micros a \<le> micros b"
  unfolding micros_def by (intro max.mono order_refl dfloor_mono dmul_mono) simp_all

lemma micros_bound: "a \<le> b \<Longrightarrow> micros a \<le> max (Dbl 0) (dmul b 1000000)"
proof -
  assume "a \<le> b"
  then have "dmul a 1000000 \<le> dmul b 1000000"
    by (intro dmul_mono) simp_all
  with dfloor_le [of "dmul a 1000000"] have "dfloor (dmul a 1000000) \<le> dmul b 1000000"
    by (rule order_trans)
  then show ?thesis
    unfolding micros_def by (intro max.mono order_refl)
qed

lemma micros_whole: "micros e = PosInf \<or> whole (micros e)"
  by (cases "dmul e 1000000") (simp_all add: micros_def whole_def max_def)

text \<open>
  Claim C5. In every state the module can come to and for every time \<open>now\<close> not before
  the anchor's, \<^verbatim>\<open>getPosition\<close> returns \<open>micros (upper_clamp length e)\<close>: \<open>e\<close> is the
  anchor's seconds plus the seconds since the anchor was taken if the anchor is playing
  and the anchor's seconds otherwise, the upper clamp applies only to a known length,
  the microseconds are the floor of a million times the seconds and not below zero, and
  every operation is the host language's, rounded to a double. The result is a whole
  number that is not negative (or the infinity, when the product overflows); for a
  playing anchor it does not decrease as \<open>now\<close> advances; it does not exceed the rounded
  product of a known length and 1000000, or zero if that is negative; for an anchor that
  is not playing it is the same at every time.
\<close>

theorem getPosition_anchor:
  assumes run: "attainable E st" and later: "lastSeekUpdate st \<le> now"
  shows
    "getPosition now st = micros (upper_clamp (activeLengthSeconds st) (elapsed now st))
     \<and> (getPosition now st = PosInf \<or> whole (getPosition now st))
     \<and> Dbl 0 \<le> getPosition now st
     \<and> (\<forall>now'. lastKnownZoneState st = ''playing'' \<and> now \<le> now'
            \<longrightarrow> getPosition now st \<le> getPosition now' st)
     \<and> (\<forall>l. activeLengthSeconds st = Some l
            \<longrightarrow> getPosition now st \<le> max (Dbl 0) (dmul (Dbl l) 1000000))
     \<and> (\<forall>now'. lastKnownZoneState st \<noteq> ''playing''
            \<longrightarrow> getPosition now' st = getPosition now st)"
proof -
  from run have anchor: "anchor_reset st"
    by (rule attainable_anchor_reset)
  show ?thesis
  proof (intro conjI allI impI)
    show "getPosition now st = micros (upper_clamp (activeLengthSeconds st) (elapsed now st))"
      by (rule getPosition_formula [OF anchor])
  next
    show "getPosition now st = PosInf \<or> whole (getPosition now st)"
      unfolding getPosition_formula [OF anchor] by (rule micros_whole)
  next
    show "Dbl 0 \<le> getPosition now st"
      unfolding getPosition_formula [OF anchor] by (simp add: micros_def)
  next
    fix now' assume "lastKnownZoneState st = ''playing'' \<and> now \<le> now'"
    then have "elapsed now st \<le> elapsed now' st"
      by (simp add: elapsed_mono)
    then show "getPosition now st \<le> getPosition now' st"
      unfolding getPosition_formula [OF anchor]
      by (intro micros_mono upper_clamp_mono)
  next
    fix l assume l: "activeLengthSeconds st = Some l"
    then have "upper_clamp (activeLengthSeconds st) (elapsed now st) \<le> Dbl l"
      by (simp add: upper_clamp_def)
    then show "getPosition now st \<le> max (Dbl 0) (dmul (Dbl l) 1000000)"
      unfolding getPosition_formula [OF anchor] by (rule micros_bound)
  next
    fix now' assume "lastKnownZoneState st \<noteq> ''playing''"
    then show "getPosition now' st = getPosition now st"
      by (simp add: getPosition_def)
  qed
qed

text \<open>
  The specification's example: one second after the anchor (10 s, playing, length 200 s)
  the position is 11000000 microseconds, a whole number below the length's 200000000.
  With the core lost and no zone active the anchor is stopped and the position is 0 at
  every time.
\<close>

theorem getPosition_anchor_witness:
  "attainable roon_env playing_state
   \<and> lastSeekUpdate playing_state \<le> 6000
   \<and> getPosition 6000 playing_state = Dbl 11000000
   \<and> getPosition 6000 playing_state \<le> getPosition 7000 playing_state
   \<and> getPosition 6000 playing_state \<le> Dbl 200000000
   \<and> whole (getPosition 6000 playing_state)
   \<and> attainable roon_env unpaired_state
   \<and> lastKnownZoneState unpaired_state = ''stopped''
   \<and> getPosition 30000 unpaired_state = getPosition 20000 unpaired_state
   \<and> getPosition 20000 unpaired_state = Dbl 0"
proof -
  have p: "attainable roon_env playing_state"
    using reachable_playing by (rule reachable_attainable)
  have q: "attainable roon_env unpaired_state"
    using reachable_unpaired by (rule reachable_attainable)
  have b: "lastSeekUpdate playing_state \<le> 6000"
    by (simp add: playing_state_anchor)
  have c: "lastSeekUpdate unpaired_state \<le> 20000"
    by (simp add: unpaired_state_def onCoreUnpaired_def setStatus_def activateZone_def
        playing_state_anchor Let_def split: option.splits)
  note t = getPosition_anchor [OF p b]
  note u = getPosition_anchor [OF q c]
  have "getPosition 6000 playing_state = Dbl 11000000"
    using t by (simp add: playing_state_anchor upper_clamp_def elapsed_def micros_def
        dsub_def fl_numeral)
  moreover have "getPosition 6000 playing_state \<le> getPosition 7000 playing_state"
    using t [THEN conjunct2, THEN conjunct2, THEN conjunct2, THEN conjunct1, rule_format,
        of 7000]
    by (simp add: playing_state_anchor)
  moreover have "getPosition 6000 playing_state \<le> Dbl 200000000"
    using t [THEN conjunct2, THEN conjunct2, THEN conjunct2, THEN conjunct2, THEN conjunct1,
        rule_format, of 200]
    by (simp add: playing_state_anchor fl_numeral)
  moreover have "whole (getPosition 6000 playing_state)"
    using t [THEN conjunct2, THEN conjunct1] calculation(1)
    by simp
  moreover have s: "lastKnownZoneState unpaired_state = ''stopped''"
    by (simp add: unpaired_state_def onCoreUnpaired_def setStatus_def activateZone_None_player)
  moreover have "getPosition 30000 unpaired_state = getPosition 20000 unpaired_state"
    using u [THEN conjunct2, THEN conjunct2, THEN conjunct2, THEN conjunct2, THEN conjunct2,
        rule_format, of 30000] s
    by simp
  moreover have "getPosition 20000 unpaired_state = Dbl 0"
    using u by (simp add: getPosition_def unpaired_state_fields)
  ultimately show ?thesis
    using p q b by simp
qed

lemma negative_length_anchor:
  "activeZone negative_length_state = Some zone_negative_length"
  "lastSeekSeconds negative_length_state = 10"
  "lastSeekUpdate negative_length_state = 5000"
  "lastKnownZoneState negative_length_state = ''playing''"
  "activeLengthSeconds negative_length_state = Some (- 1)"
  by (simp_all add: negative_length_state_def paired_state_def zone_negative_length_def
      zone_z1_def eval_defs)

lemma quotient_1005: "ddiv (Dbl 1005) 1000 = Dbl (4526117625507348 / 2 ^ 52)"
proof -
  have "fl (1005 / 1000) = Dbl (of_int 4526117625507348 * (1 / 2 ^ 52))"
  proof (rule fl_at [where e = 0])
    show "round_even (1005 / 1000 / (1 / 2 ^ 52)) = 4526117625507348"
      by (rule round_even_eqI) simp_all
  qed (simp_all add: powr_neg_numeral)
  then show ?thesis by simp
qed

lemma sum_11005:
  "dadd 10 (Dbl (4526117625507348 / 2 ^ 52)) = Dbl (6195264237401538 / 2 ^ 49)"
proof -
  have "fl (10 + 4526117625507348 / 2 ^ 52) = Dbl (of_int 6195264237401538 * (1 / 2 ^ 49))"
  proof (rule fl_at [where e = 3])
    have "round_even ((10 + 4526117625507348 / 2 ^ 52) / (1 / 2 ^ 49))
            = (if even (6195264237401538::int) then 6195264237401538
               else 6195264237401538 + 1)"
      by (rule round_even_tie) simp
    then show "round_even ((10 + 4526117625507348 / 2 ^ 52) / (1 / 2 ^ 49))
                 = 6195264237401538"
      by simp
  qed (simp_all add: powr_neg_numeral)
  then show ?thesis by simp
qed

lemma product_11005:
  "dmul (Dbl (6195264237401538 / 2 ^ 49)) 1000000 = Dbl (5908264386559999 / 2 ^ 29)"
proof -
  have "fl (6195264237401538 / 2 ^ 49 * 1000000)
          = Dbl (of_int 5908264386559999 * (1 / 2 ^ 29))"
  proof (rule fl_at [where e = 23])
    show "round_even (6195264237401538 / 2 ^ 49 * 1000000 / (1 / 2 ^ 29)) = 5908264386559999"
      by (rule round_even_eqI) simp_all
  qed (simp_all add: powr_neg_numeral)
  then show ?thesis by simp
qed

lemma floor_11005: "dfloor (Dbl (5908264386559999 / 2 ^ 29)) = Dbl 11004999"
proof -
  have "\<lfloor>5908264386559999 / 2 ^ 29 :: real\<rfloor> = 11004999"
    by (rule floor_unique) simp_all
  then show ?thesis by simp
qed

text \<open>
  At 6005 ms, 1005 ms after the anchor of 10 s was taken, the specification's formula
  gives \<open>floor (11.005 * 1000000) = 11005000\<close>. In doubles the quotient \<open>1005 / 1000\<close>
  is rounded, its sum with 10 is rounded down to an even last bit, and the product with
  1000000 is a double just below 11005000, so that \<^verbatim>\<open>getPosition\<close> returns 11004999.
  For a zone reported with the length \<open>- 1\<close> the estimate is 0, which is above the
  length times 1000000.
\<close>

theorem getPosition_rounds_below:
  "getPosition 6005 playing_state = Dbl 11004999
   \<and> exact_position 6005 playing_state = 11005000
   \<and> lastSeekUpdate playing_state \<le> 6005
   \<and> activeLengthSeconds negative_length_state = Some (- 1)
   \<and> getPosition 6000 negative_length_state = Dbl 0
   \<and> \<not> getPosition 6000 negative_length_state \<le> Dbl (- 1 * 1000000)"
proof -
  have "dsub 6005 5000 = Dbl 1005"
    by (simp add: dsub_def fl_numeral)
  then have "getPosition 6005 playing_state
      = max (Dbl 0) (dfloor (dmul (min (dadd 10 (ddiv (Dbl 1005) 1000)) (Dbl 200)) 1000000))"
    by (simp add: getPosition_def playing_state_anchor del: ddiv.simps)
  also have "\<dots> = max (Dbl 0) (dfloor (dmul (min (Dbl (6195264237401538 / 2 ^ 49)) (Dbl 200))
                                     1000000))"
    by (simp only: quotient_1005 sum_11005)
  also have "min (Dbl (6195264237401538 / 2 ^ 49)) (Dbl 200) = Dbl (6195264237401538 / 2 ^ 49)"
    by (simp add: min_def)
  also have "max (Dbl 0) (dfloor (dmul (Dbl (6195264237401538 / 2 ^ 49)) 1000000))
               = max (Dbl 0) (Dbl 11004999)"
    by (simp only: product_11005 floor_11005)
  also have "\<dots> = Dbl 11004999"
    by (simp add: max_def)
  finally have a: "getPosition 6005 playing_state = Dbl 11004999" .
  have b: "exact_position 6005 playing_state = 11005000"
    by (simp add: exact_position_def exact_elapsed_def playing_state_anchor)
  have c: "getPosition 6000 negative_length_state = Dbl 0"
    by (simp add: getPosition_def negative_length_anchor dsub_def fl_numeral min_def max_def)
  from a b c show ?thesis
    by (simp add: playing_state_anchor negative_length_anchor)
qed

section \<open>Position requests\<close>






section \<open>The artwork cache\<close>

lemma resolveArtFile_calls:
  "get_image_calls (resolveArtFile E k st)
     = (if imageSvc st \<noteq> None \<and> k \<noteq> [] \<and> \<not> resolved st k
        then get_image_calls st @ [k] else get_image_calls st)"
  by (auto simp: resolveArtFile_def resolved_def split: option.splits)

lemma resolveArtFile_pending:
  "pending_images (resolveArtFile E k st)
     = (if imageSvc st \<noteq> None \<and> k \<noteq> [] \<and> \<not> resolved st k
        then pending_images st @ [k] else pending_images st)"
  by (auto simp: resolveArtFile_def resolved_def split: option.splits)

lemma resolveArtFile_keeps:
  "imageSvc (resolveArtFile E k st) = imageSvc st"
  "resolved (resolveArtFile E k st) k' = resolved st k'"
  by (auto simp: resolveArtFile_def resolved_def split: option.splits)

lemma fetched_resolved:
  assumes "k \<in> set (pending_images s)"
  shows "resolved (fetched E k ct s) k" and "get_image_calls (fetched E k ct s) = get_image_calls s"
proof -
  let ?p = "targetBase E k @ ''.'' @ (if mentions_png ct then ''png'' else ''jpg'')"
  let ?s1 = "get_image_callback E k (ImageOk ct) s"
  have pw: "(k, ?p) \<in> set (pending_writes ?s1)" and f1: "files ?s1 = files s"
    and g1: "get_image_calls ?s1 = get_image_calls s"
    using assms by (simp_all add: get_image_callback_def)
  let ?fs = "insert ?p (files s)"
  let ?final = "targetBase E k @ ''.'' @ (if targetBase E k @ ''.png'' \<in> ?fs then ''png'' else ''jpg'')"
  have kf: "keyToFilePath (fetched E k ct s) k = Some ?final"
    and fs: "files (fetched E k ct s) = ?fs"
    using pw f1 by (simp_all add: fetched_def writeFile_callback_def Let_def applyArtUrl_def)
  have "?final \<in> ?fs"
    by auto
  then show "resolved (fetched E k ct s) k"
    unfolding resolved_def kf fs by simp
  show "get_image_calls (fetched E k ct s) = get_image_calls s"
    using pw g1 by (simp add: fetched_def writeFile_callback_def Let_def applyArtUrl_def)
qed

text \<open>
  Claim C1, as the code has it. The cache keeps no record of requests in flight. A resolve
  call for a key issues one image request exactly when an image service is set, the key is
  not empty and the key is not resolved, whether or not a request for the key is pending:
  two resolve calls for the same unresolved key issue two requests. Once a request for
  the key has completed and its file is written, the key is resolved, and a resolve call
  for it issues no request.
\<close>

theorem artwork_fetch_per_call:
  "get_image_calls (resolveArtFile E k st)
     = (if imageSvc st \<noteq> None \<and> k \<noteq> [] \<and> \<not> resolved st k
        then get_image_calls st @ [k] else get_image_calls st)
   \<and> (imageSvc st \<noteq> None \<and> k \<noteq> [] \<and> \<not> resolved st k \<longrightarrow>
         k \<in> set (pending_images (resolveArtFile E k st))
         \<and> \<not> resolved (resolveArtFile E k st) k
         \<and> get_image_calls (resolveArtFile E k (resolveArtFile E k st))
             = get_image_calls st @ [k, k])
   \<and> (k \<in> set (pending_images st) \<longrightarrow>
         resolved (fetched E k contentType st) k
         \<and> get_image_calls (resolveArtFile E k (fetched E k contentType st))
             = get_image_calls st)"
proof (intro conjI impI)
  show "get_image_calls (resolveArtFile E k st)
     = (if imageSvc st \<noteq> None \<and> k \<noteq> [] \<and> \<not> resolved st k
        then get_image_calls st @ [k] else get_image_calls st)"
    by (rule resolveArtFile_calls)
next
  assume u: "imageSvc st \<noteq> None \<and> k \<noteq> [] \<and> \<not> resolved st k"
  then show "k \<in> set (pending_images (resolveArtFile E k st))"
    by (simp add: resolveArtFile_pending)
  from u show "\<not> resolved (resolveArtFile E k st) k"
    by (simp add: resolveArtFile_keeps)
  from u show "get_image_calls (resolveArtFile E k (resolveArtFile E k st))
             = get_image_calls st @ [k, k]"
    by (simp add: resolveArtFile_calls resolveArtFile_keeps)
next
  assume p: "k \<in> set (pending_images st)"
  then show "resolved (fetched E k contentType st) k"
    by (rule fetched_resolved)
  then show "get_image_calls (resolveArtFile E k (fetched E k contentType st))
             = get_image_calls st"
    using fetched_resolved(2) [OF p] by (simp add: resolveArtFile_calls)
qed

lemma art_state_fields:
  "get_image_calls art_state = [''k1'']"
  "pending_images art_state = [''k1'']"
  "keyToFilePath art_state ''k1'' = None"
  "imageSvc art_state = Some core0"
  "activeZoneId art_state = Some ''z1''"
  "zones art_state = [(''z1'', art_zone)]"
  "files art_state = {}"
  by (simp_all add: art_state_def paired_state_def art_zone_def zone_z1_def eval_defs)

text \<open>
  The claim as stated fails: while the image request for \<^verbatim>\<open>k1\<close> is pending and \<^verbatim>\<open>k1\<close>
  is unresolved, the zone pauses, its metadata is projected again, and a second request
  for \<^verbatim>\<open>k1\<close> is issued.
\<close>

theorem concurrent_resolves_fetch_twice:
  "''k1'' \<in> set (pending_images art_state)
   \<and> keyToFilePath art_state ''k1'' = None
   \<and> get_image_calls art_state = [''k1'']
   \<and> get_image_calls (onSubscription roon_env 6000 (Changed art_zone_paused) art_state)
       = [''k1'', ''k1'']"
proof -
  have "get_image_calls (onSubscription roon_env 6000 (Changed art_zone_paused) art_state)
       = [''k1'', ''k1'']"
    by (simp add: onSubscription_def onZonesChanged_def applyChanges_def each_def
        art_zone_paused_def changeZone_def art_state_fields id_truthy_def activateZone_fields
        art_zone_def zone_z1_def bare_zone_def)
       (simp add: activateZone_def updateFromActiveZone_def updateSeekState_def
        updatePlaybackState_def updateMetadata_def updateCapabilities_def setStatus_def
        np_of_def empty_now_playing_def resolveArtFile_def art_state_fields Let_def
        split: option.splits)
  then show ?thesis
    by (simp add: art_state_fields)
qed

text \<open>
  On that state: a further resolve call adds a request each time; after the pending
  request completes the key is resolved and a resolve call adds none.
\<close>

theorem artwork_fetch_per_call_witness:
  "imageSvc art_state = Some core0
   \<and> ''k1'' \<in> set (pending_images art_state)
   \<and> get_image_calls (resolveArtFile roon_env ''k1'' art_state) = [''k1'', ''k1'']
   \<and> get_image_calls (resolveArtFile roon_env ''k1'' (resolveArtFile roon_env ''k1'' art_state))
       = [''k1'', ''k1'', ''k1'']
   \<and> resolved (fetched roon_env ''k1'' ''image/jpeg'' art_state) ''k1''
   \<and> get_image_calls (resolveArtFile roon_env ''k1'' (fetched roon_env ''k1'' ''image/jpeg'' art_state))
       = [''k1'']"
proof -
  have u: "imageSvc art_state \<noteq> None \<and> ''k1'' \<noteq> [] \<and> \<not> resolved art_state ''k1''"
    and p: "''k1'' \<in> set (pending_images art_state)"
    by (simp_all add: art_state_fields resolved_def)
  note t = artwork_fetch_per_call [of roon_env "''k1''" art_state "''image/jpeg''"]
  from t u have "get_image_calls (resolveArtFile roon_env ''k1'' art_state) = [''k1'', ''k1'']"
    by (simp add: art_state_fields)
  moreover from t u
  have "get_image_calls (resolveArtFile roon_env ''k1'' (resolveArtFile roon_env ''k1'' art_state))
       = [''k1'', ''k1'', ''k1'']"
    by (simp add: art_state_fields)
  moreover from t p have "resolved (fetched roon_env ''k1'' ''image/jpeg'' art_state) ''k1''
     \<and> get_image_calls (resolveArtFile roon_env ''k1'' (fetched roon_env ''k1'' ''image/jpeg'' art_state))
       = [''k1'']"
    by (simp add: art_state_fields)
  ultimately show ?thesis
    using p by (simp add: art_state_fields)
qed

end
